theory Spec2Isabelle
  imports Main "HOL-Library.Word"
begin

unbundle bit_operations_syntax

section \<open>The debug dump tool for maXTouch chips (mxt\_debug\_dump.c)\<close>

text \<open>
  A shallow embedding of \<^verbatim>\<open>src/tools/mxt_debug_dump/mxt_debug_dump.c\<close>.
  C \<^verbatim>\<open>int\<close> is modelled as \<open>int\<close> (the sizes, pointers and counters of
  the tool come from 8-bit matrix sizes and stay far from the 32-bit range), the fixed
  width types \<^verbatim>\<open>uint8_t\<close>, \<^verbatim>\<open>uint16_t\<close> and \<^verbatim>\<open>unsigned int\<close>
  as words. The two heap buffers are stores indexed by the element offset, so that an
  access outside the allocated range stays visible in the model.
\<close>

subsection \<open>Data model\<close>

type_synonym u8 = "8 word"
type_synonym u16 = "16 word"
type_synonym u32 = "32 word"

text \<open>The T6 register offset and the T37 diagnostic commands (lines 48--60).\<close>

definition MXT_CP_T6_DIAGNOSTIC_OFFSET :: int where
  "MXT_CP_T6_DIAGNOSTIC_OFFSET = 0x05"

definition PAGE_UP :: u8 where
  "PAGE_UP = 0x01"

definition DELTAS_MODE :: int where
  "DELTAS_MODE = 0x10"

definition REFS_MODE :: int where
  "REFS_MODE = 0x11"

text \<open>
  \<^verbatim>\<open>struct mxt_debug_data\<close> (lines 62--87). \<open>page_buf\<close> and \<open>data_buf\<close> are the
  contents of the two allocated buffers, by element offset; the stream \<^verbatim>\<open>hawkeye\<close>
  is the file \<open>hawkeye_csv\<close> of the environment below.
\<close>

record mxt_debug_data =
  x_size :: int
  y_size :: int
  num_stripes :: int
  stripe_width :: int
  stripe_starty :: int
  stripe_endy :: int
  page_size :: u8
  mode :: u8
  diag_cmd_addr :: int
  t37_addr :: int
  t37_size :: int
  frame :: u32
  stripe :: int
  page :: int
  x_ptr :: int
  y_ptr :: int
  page_buf :: "int \<Rightarrow> u8"
  data_buf :: "int \<Rightarrow> u16"

text \<open>
  Every \<^verbatim>\<open>return -1\<close> of the tool, named after the message it logs before
  returning; \<open>None\<close> is \<^verbatim>\<open>return 0\<close>.
\<close>

datatype dd_error =
    Failed_read_status      \<comment> \<open>Failed to read the status of diagnostic mode command\<close>
  | Timeout_waiting         \<comment> \<open>Timeout waiting for command to be actioned\<close>
  | Failed_read_mode        \<comment> \<open>Failed to read current mode\<close>
  | Failed_read_page_number \<comment> \<open>Failed to read page number\<close>
  | Bad_page_mode           \<comment> \<open>Bad page/mode in diagnostic data read\<close>
  | Failed_read_page        \<comment> \<open>Failed to read page\<close>
  | X_pointer_overrun       \<comment> \<open>x pointer overrun\<close>

fun ret_code :: "dd_error option \<Rightarrow> int" where
  "ret_code None = 0"
| "ret_code (Some e) = - 1"

subsection \<open>The frame assembler: \<^verbatim>\<open>mxt_debug_insert_data\<close> (lines 186--216)\<close>

text \<open>
  \<^verbatim>\<open>value = (page_buf[i+1] << 8) | page_buf[i]\<close>, a \<^verbatim>\<open>uint16_t\<close>.
\<close>

definition sample16 :: "u8 \<Rightarrow> u8 \<Rightarrow> u16" where
  "sample16 hi lo = push_bit 8 (ucast hi) OR ucast lo"

text \<open>The body of the loop after the overrun check: one sample is stored, the cursor moves.\<close>

definition insert_sample :: "mxt_debug_data \<Rightarrow> int \<Rightarrow> mxt_debug_data" where
  "insert_sample s i =
     (let v = sample16 (page_buf s (i + 1)) (page_buf s i);
          ofs = y_ptr s + x_ptr s * y_size s;
          s1 = s\<lparr>data_buf := (data_buf s)(ofs := v)\<rparr>;
          s2 = s1\<lparr>y_ptr := y_ptr s1 + 1\<rparr>
      in if y_ptr s2 > stripe_endy s2
         then s2\<lparr>y_ptr := stripe_starty s2, x_ptr := x_ptr s2 + 1\<rparr>
         else s2)"

text \<open>The loop \<^verbatim>\<open>for (i = 0; i < page_size; i += 2)\<close>, from index \<open>i\<close> on.\<close>

function insert_loop :: "mxt_debug_data \<Rightarrow> int \<Rightarrow> dd_error option \<times> mxt_debug_data" where
  "insert_loop s i =
     (if i < uint (page_size s)
      then if x_ptr s > x_size s
           then (Some X_pointer_overrun, s)
           else insert_loop (insert_sample s i) (i + 2)
      else (None, s))"
  by pat_completeness auto
termination
  by (relation "measure (\<lambda>(s, i). nat (uint (page_size s) - i))")
     (auto simp: insert_sample_def Let_def)

declare insert_loop.simps [simp del]

definition mxt_debug_insert_data :: "mxt_debug_data \<Rightarrow> dd_error option \<times> mxt_debug_data" where
  "mxt_debug_insert_data s = insert_loop s 0"

subsection \<open>The register transport (libmaxtouch, an external collaborator)\<close>

text \<open>
  \<^verbatim>\<open>mxt_read_register(buf, addr, count)\<close> and \<^verbatim>\<open>mxt_write_register(buf, addr, count)\<close>
  are declared in \<^verbatim>\<open>libmaxtouch/libmaxtouch.h\<close> and not part of this file. They are a
  parameter of the model: a chip with a state of any type \<open>'d\<close>, whose read answers with
  a return value and the bytes it leaves in \<open>buf[0..count)\<close>, and whose write takes the
  \<open>count\<close> bytes of \<open>buf\<close> and answers with a return value.
\<close>

record 'd transport =
  read_register :: "'d \<Rightarrow> int \<Rightarrow> nat \<Rightarrow> int \<times> (nat \<Rightarrow> u8) \<times> 'd"
  write_register :: "'d \<Rightarrow> u8 list \<Rightarrow> int \<Rightarrow> int \<times> 'd"

text \<open>One register transfer as it is seen on the bus: a read of a number of bytes at an
  address, or a write of bytes to an address.\<close>

datatype bus_op = Reg_read int nat | Reg_write int "u8 list"

text \<open>
  The world outside the tool: the chip, the register transfers made so far in the order
  they were made, and the contents of the two files the tool writes (\<open>None\<close> while a file
  has not been created).
\<close>

record 'd sys =
  chip :: 'd
  bus :: "bus_op list"
  hawkeye_csv :: "string option"
  control_txt :: "string option"

definition mxt_read_register ::
  "'d transport \<Rightarrow> 'd sys \<Rightarrow> int \<Rightarrow> nat \<Rightarrow> int \<times> (nat \<Rightarrow> u8) \<times> 'd sys" where
  "mxt_read_register T w addr count =
     (case read_register T (chip w) addr count of
        (ret, buf, d) \<Rightarrow> (ret, buf, w\<lparr>chip := d, bus := bus w @ [Reg_read addr count]\<rparr>))"

definition mxt_write_register ::
  "'d transport \<Rightarrow> 'd sys \<Rightarrow> u8 list \<Rightarrow> int \<Rightarrow> int \<times> 'd sys" where
  "mxt_write_register T w buf addr =
     (case write_register T (chip w) buf addr of
        (ret, d) \<Rightarrow> (ret, w\<lparr>chip := d, bus := bus w @ [Reg_write addr buf]\<rparr>))"

subsection \<open>The diagnostic page fetcher: \<^verbatim>\<open>mxt_debug_dump_page\<close> (lines 111--184)\<close>

text \<open>
  Lines 120--128: the mode command for page 0, the page-up command for any other page.
  The return value of \<^verbatim>\<open>mxt_write_register\<close> is not looked at.
\<close>

definition send_command :: "'d transport \<Rightarrow> mxt_debug_data \<Rightarrow> 'd sys \<Rightarrow> 'd sys" where
  "send_command T s w =
     (if page s = 0
      then snd (mxt_write_register T w [mode s] (diag_cmd_addr s))
      else snd (mxt_write_register T w [PAGE_UP] (diag_cmd_addr s)))"

text \<open>
  Lines 132--153: the loop \<^verbatim>\<open>while (read_command)\<close>. \<^verbatim>\<open>read_command\<close> starts as 1,
  so the body runs at least once; the argument \<open>failures\<close> is the counter of the source.
\<close>

function wait_command ::
  "'d transport \<Rightarrow> mxt_debug_data \<Rightarrow> int \<Rightarrow> 'd sys \<Rightarrow> dd_error option \<times> 'd sys" where
  "wait_command T s failures w =
     (case mxt_read_register T w (diag_cmd_addr s) 1 of
        (ret, buf, w1) \<Rightarrow>
          if ret < 0 then (Some Failed_read_status, w1)
          else if buf 0 \<noteq> 0
          then (if failures + 1 > 500
                then (Some Timeout_waiting, w1)
                else wait_command T s (failures + 1) w1)
          else (None, w1))"
  by pat_completeness auto
termination
  by (relation "measure (\<lambda>(T, s, failures, w). nat (500 - failures))") auto

declare wait_command.simps [simp del]

text \<open>Line 175: the page read fills \<open>page_buf[0..page_size)\<close>.\<close>

definition store_page :: "mxt_debug_data \<Rightarrow> (nat \<Rightarrow> u8) \<Rightarrow> mxt_debug_data" where
  "store_page s buf =
     s\<lparr>page_buf := (\<lambda>k. if 0 \<le> k \<and> k < uint (page_size s) then buf (nat k) else page_buf s k)\<rparr>"

text \<open>Lines 155--183, after the command has been actioned. The test of line 169 is
  written as the two tests that \<^verbatim>\<open>||\<close> makes, in its order.\<close>

definition read_diagnostic ::
  "'d transport \<Rightarrow> mxt_debug_data \<Rightarrow> 'd sys \<Rightarrow> dd_error option \<times> mxt_debug_data \<times> 'd sys" where
  "read_diagnostic T s w1 =
     (case mxt_read_register T w1 (t37_addr s) 1 of
        (ret, buf, w2) \<Rightarrow>
          if ret < 0 then (Some Failed_read_mode, s, w2)
          else let read_mode = buf 0 in
            (case mxt_read_register T w2 (t37_addr s + 1) 1 of
               (ret, buf, w3) \<Rightarrow>
                 if ret < 0 then (Some Failed_read_page_number, s, w3)
                 else let read_page = buf 0 in
                   if read_mode \<noteq> mode s then (Some Bad_page_mode, s, w3)
                   else if uint read_page \<noteq> page s then (Some Bad_page_mode, s, w3)
                   else
                     (case mxt_read_register T w3 (t37_addr s + 2) (unat (page_size s)) of
                        (ret, buf, w4) \<Rightarrow>
                          if ret < 0 then (Some Failed_read_page, store_page s buf, w4)
                          else (None, store_page s buf, w4))))"

definition mxt_debug_dump_page ::
  "'d transport \<Rightarrow> mxt_debug_data \<Rightarrow> 'd sys \<Rightarrow> dd_error option \<times> mxt_debug_data \<times> 'd sys" where
  "mxt_debug_dump_page T s w =
     (case wait_command T s 0 (send_command T s w) of
        (Some e, w1) \<Rightarrow> (Some e, s, w1)
      | (None, w1) \<Rightarrow> read_diagnostic T s w1)"

subsection \<open>Formatted output (the C library)\<close>

text \<open>
  The conversion \<^verbatim>\<open>%d\<close> of \<^verbatim>\<open>fprintf\<close>: the decimal digits of an integer, with a
  minus sign for a negative one.
\<close>

definition digit_char :: "nat \<Rightarrow> char" where
  "digit_char n = ''0123456789'' ! (n mod 10)"

fun dec_nat :: "nat \<Rightarrow> string" where
  "dec_nat n = (if n < 10 then [digit_char n] else dec_nat (n div 10) @ [digit_char (n mod 10)])"

declare dec_nat.simps [simp del]

definition dec_int :: "int \<Rightarrow> string" where
  "dec_int i = (if i < 0 then CHR ''-'' # dec_nat (nat (- i)) else dec_nat (nat i))"

text \<open>
  The fields of \<^verbatim>\<open>struct tm\<close> that \<^verbatim>\<open>strftime\<close> reads for \<^verbatim>\<open>%T\<close>, which is
  \<^verbatim>\<open>%H:%M:%S\<close>: each field in decimal, padded with a zero to two digits. \<open>strftime\<close>
  returns 0 (here \<open>None\<close>) when the text and its terminating zero do not fit in \<open>maxsize\<close>
  bytes.
\<close>

record tm =
  tm_hour :: int
  tm_min :: int
  tm_sec :: int

definition two_digits :: "int \<Rightarrow> string" where
  "two_digits n = (if 0 \<le> n \<and> n < 10 then CHR ''0'' # dec_int n else dec_int n)"

definition strftime_T :: "nat \<Rightarrow> tm \<Rightarrow> string option" where
  "strftime_T maxsize t =
     (let str = two_digits (tm_hour t) @ '':'' @ two_digits (tm_min t) @ '':'' @ two_digits (tm_sec t)
      in if length str + 1 > maxsize then None else Some str)"

text \<open>\<^verbatim>\<open>fprintf(mxt_dd->hawkeye, ...)\<close>: the text is appended to the open stream.\<close>

definition fprintf_hawkeye :: "'d sys \<Rightarrow> string \<Rightarrow> 'd sys" where
  "fprintf_hawkeye w str = w\<lparr>hawkeye_csv := map_option (\<lambda>old. old @ str) (hawkeye_csv w)\<rparr>"

subsection \<open>The frame serializer: \<^verbatim>\<open>mxt_hawkeye_output\<close> (lines 272--315)\<close>

text \<open>The inner loop \<^verbatim>\<open>for (y = 0; y < y_size; y++)\<close> of column \<open>x\<close>, from \<open>y\<close> on, and
  the outer loop \<^verbatim>\<open>for (x = 0; x < x_size; x++)\<close>, from \<open>x\<close> on: the text they print.\<close>

function hawkeye_column :: "mxt_debug_data \<Rightarrow> int \<Rightarrow> int \<Rightarrow> string" where
  "hawkeye_column s x y =
     (if y < y_size s
      then dec_int (sint (data_buf s (y + x * y_size s))) @ '','' @ hawkeye_column s x (y + 1)
      else [])"
  by pat_completeness auto
termination
  by (relation "measure (\<lambda>(s, x, y). nat (y_size s - y))") auto

declare hawkeye_column.simps [simp del]

function hawkeye_columns :: "mxt_debug_data \<Rightarrow> int \<Rightarrow> string" where
  "hawkeye_columns s x =
     (if x < x_size s then hawkeye_column s x 0 @ hawkeye_columns s (x + 1) else [])"
  by pat_completeness auto
termination
  by (relation "measure (\<lambda>(s, x). nat (x_size s - x))") auto

declare hawkeye_columns.simps [simp del]

text \<open>
  \<open>tmp\<close> is what \<^verbatim>\<open>localtime(&t)\<close> returns for the time of the call (\<open>None\<close> for a
  null pointer); \<^verbatim>\<open>timestr\<close> has 20 bytes. The frame number, an \<^verbatim>\<open>unsigned int\<close>,
  is printed with \<^verbatim>\<open>%d\<close>.
\<close>

definition mxt_hawkeye_output :: "tm option \<Rightarrow> mxt_debug_data \<Rightarrow> 'd sys \<Rightarrow> int \<times> 'd sys" where
  "mxt_hawkeye_output tmp s w =
     (case tmp of
        None \<Rightarrow> (- 1, w)
      | Some t \<Rightarrow>
          (case strftime_T 20 t of
             None \<Rightarrow> (- 1, w)
           | Some timestr \<Rightarrow>
               (let w1 = fprintf_hawkeye w (timestr @ '','');
                    w2 = fprintf_hawkeye w1 (dec_int (sint (frame s)) @ '','');
                    w3 = fprintf_hawkeye w2 (hawkeye_columns s 0);
                    w4 = fprintf_hawkeye w3 [CHR 0x0A]
                in (0, w4))))"

subsection \<open>The layout descriptor: \<^verbatim>\<open>mxt_hawkeye_generate_control_file\<close> (lines 247--270)\<close>

function control_column :: "mxt_debug_data \<Rightarrow> int \<Rightarrow> int \<Rightarrow> string" where
  "control_column s x y =
     (if y < y_size s
      then ''int16_lsb_msb,'' @ dec_int (y + 1) @ '','' @ dec_int (x + 1) @ '',X'' @ dec_int x
             @ ''Y'' @ dec_int y @ ''_Delta16'' @ [CHR 0x0A] @ control_column s x (y + 1)
      else [])"
  by pat_completeness auto
termination
  by (relation "measure (\<lambda>(s, x, y). nat (y_size s - y))") auto

declare control_column.simps [simp del]

function control_columns :: "mxt_debug_data \<Rightarrow> int \<Rightarrow> string" where
  "control_columns s x =
     (if x < x_size s then control_column s x 0 @ control_columns s (x + 1) else [])"
  by pat_completeness auto
termination
  by (relation "measure (\<lambda>(s, x). nat (x_size s - x))") auto

declare control_columns.simps [simp del]

text \<open>\<open>opened\<close> says whether \<^verbatim>\<open>fopen("control.txt","w")\<close> gave a stream.\<close>

definition mxt_hawkeye_generate_control_file :: "bool \<Rightarrow> mxt_debug_data \<Rightarrow> 'd sys \<Rightarrow> 'd sys" where
  "mxt_hawkeye_generate_control_file opened s w =
     (if \<not> opened then w
      else w\<lparr>control_txt := Some (''uint8,1,1,TIN'' @ [CHR 0x0A] @ control_columns s 0)\<rparr>)"

subsection \<open>The capture loop: \<^verbatim>\<open>mxt_debug_dump\<close> (lines 328--485)\<close>


text \<open>
  Lines 450--464: the loop over the pages of a stripe, from page \<open>pg\<close> on. A negative
  return of the fetcher leaves the loops (\<^verbatim>\<open>goto free\<close>); the return value of
  \<^verbatim>\<open>mxt_debug_insert_data\<close> is not looked at.
\<close>

function page_loop ::
  "'d transport \<Rightarrow> int \<Rightarrow> mxt_debug_data \<Rightarrow> 'd sys \<Rightarrow> int
     \<Rightarrow> dd_error option \<times> mxt_debug_data \<times> 'd sys" where
  "page_loop T pages_per_stripe s w pg =
     (if pg < pages_per_stripe
      then (let s1 = s\<lparr>page := pages_per_stripe * stripe s + pg\<rparr>
            in case mxt_debug_dump_page T s1 w of
                 (Some e, s2, w2) \<Rightarrow> (Some e, s2, w2)
               | (None, s2, w2) \<Rightarrow>
                   page_loop T pages_per_stripe (snd (mxt_debug_insert_data s2)) w2 (pg + 1))
      else (None, s, w))"
  by pat_completeness auto
termination
  by (relation "measure (\<lambda>(T, pages_per_stripe, s, w, pg). nat (pages_per_stripe - pg))") auto

declare page_loop.simps [simp del]

text \<open>Lines 442--465: the loop over the stripes, \<^verbatim>\<open>mxt_dd.stripe\<close> being its counter.\<close>

function stripe_loop ::
  "'d transport \<Rightarrow> int \<Rightarrow> int \<Rightarrow> mxt_debug_data \<Rightarrow> 'd sys
     \<Rightarrow> dd_error option \<times> mxt_debug_data \<times> 'd sys" where
  "stripe_loop T nstripes pages_per_stripe s w =
     (if stripe s < nstripes
      then (let s1 = s\<lparr>stripe_starty := stripe_width s * stripe s\<rparr>;
                s2 = s1\<lparr>stripe_endy := stripe_starty s1 + stripe_width s1 - 1\<rparr>;
                s3 = s2\<lparr>x_ptr := 0\<rparr>;
                s4 = s3\<lparr>y_ptr := stripe_starty s3\<rparr>
            in case page_loop T pages_per_stripe s4 w 0 of
                 (Some e, s5, w5) \<Rightarrow> (Some e, s5, w5)
               | (None, s5, w5) \<Rightarrow>
                   stripe_loop T nstripes pages_per_stripe (s5\<lparr>stripe := stripe s5 + 1\<rparr>) w5)
      else (None, s, w))"
  by pat_completeness auto
termination
proof -
  have ins: "stripe (snd (insert_loop s i)) = stripe s" for s i
  proof (induction s i rule: insert_loop.induct)
    case (1 s i)
    show ?case
      using "1.IH" by (subst insert_loop.simps) (simp add: insert_sample_def Let_def)
  qed
  have rd: "stripe (fst (snd (read_diagnostic T s w))) = stripe s" for T :: "'d transport" and s w
    by (simp add: read_diagnostic_def store_page_def Let_def split: prod.splits)
  have dp: "stripe (fst (snd (mxt_debug_dump_page T s w))) = stripe s" for T :: "'d transport" and s w
    using rd [of T s] by (simp add: mxt_debug_dump_page_def split: prod.splits option.splits)
  have pl: "stripe (fst (snd (page_loop T pps s w pg))) = stripe s"
    for T :: "'d transport" and pps s w pg
  proof (induction T pps s w pg rule: page_loop.induct)
    case (1 T pps s w pg)
    show ?case
      using "1.IH" dp [of T "s\<lparr>page := pps * stripe s + pg\<rparr>" w] 
        ins [of "fst (snd (mxt_debug_dump_page T (s\<lparr>page := pps * stripe s + pg\<rparr>) w))" 0]
      by (subst page_loop.simps) (auto simp: mxt_debug_insert_data_def Let_def split: prod.splits option.splits)
  qed
  show ?thesis
    apply (relation "measure (\<lambda>(T, nstripes, pages_per_stripe, s, w). nat (nstripes - stripe s))") 
     apply simp
    subgoal premises p for T ns pps s w s1 s2 s3 s4 x2 x1 s5 w5
      using p(1) p(6) [symmetric] p(8) [symmetric] pl [of T pps s4 w 0] by (simp add: p(2-5))
    done
qed

declare stripe_loop.simps [simp del]

text \<open>
  What \<^verbatim>\<open>mxt_debug_dump\<close> reads from outside this file. \<^verbatim>\<open>info_block.id\<close>,
  \<^verbatim>\<open>get_object_address\<close>, \<^verbatim>\<open>get_object_size\<close> and \<^verbatim>\<open>OBJECT_NOT_FOUND\<close> are
  declared in \<^verbatim>\<open>libmaxtouch/info_block.h\<close>: the four identity bytes, the two addresses,
  the size and the constant are inputs. So are the number typed at the prompt
  (\<^verbatim>\<open>get_num_frames\<close>), what the two \<^verbatim>\<open>malloc\<close> calls return (\<open>None\<close> for a null
  pointer, else the contents of the fresh block), whether each \<^verbatim>\<open>fopen\<close> gives a stream,
  and the local time at the moment frame \<open>f\<close> is printed.

  The locals \<^verbatim>\<open>num_stripes\<close>, \<^verbatim>\<open>pages_per_stripe\<close> and \<^verbatim>\<open>mxt_dd\<close> have no
  initialiser: \<open>stack_num_stripes\<close>, \<open>stack_pages_per_stripe\<close> and \<open>stack_mxt_dd\<close> are the
  indeterminate values they hold when the function starts.
\<close>

record info_id =
  family_id :: int
  variant_id :: int
  matrix_x_size :: int
  matrix_y_size :: int

record dump_env =
  typed_frames :: u32
  info_block_id :: info_id
  OBJECT_NOT_FOUND :: int
  t6_object_address :: int
  t37_object_address :: int
  t37_object_size :: int
  stack_num_stripes :: int
  stack_pages_per_stripe :: int
  stack_mxt_dd :: mxt_debug_data
  malloc_page_buf :: "(int \<Rightarrow> u8) option"
  malloc_data_buf :: "(int \<Rightarrow> u16) option"
  fopen_hawkeye :: bool
  fopen_control :: bool
  localtime_at :: "u32 \<Rightarrow> tm option"

text \<open>Lines 89--109.\<close>

definition get_objects_addr :: "dump_env \<Rightarrow> mxt_debug_data \<Rightarrow> int \<times> mxt_debug_data" where
  "get_objects_addr E s =
     (let t6_addr = t6_object_address E
      in if t6_addr = OBJECT_NOT_FOUND E then (- 1, s)
         else let s1 = s\<lparr>diag_cmd_addr := t6_addr + MXT_CP_T6_DIAGNOSTIC_OFFSET\<rparr>;
                  s2 = s1\<lparr>t37_addr := t37_object_address E\<rparr>
              in if t37_addr s2 = OBJECT_NOT_FOUND E then (- 1, s2)
                 else let s3 = s2\<lparr>t37_size := t37_object_size E\<rparr>
                      in if t37_size s3 = OBJECT_NOT_FOUND E then (- 1, s3) else (0, s3))"

text \<open>
  Lines 357--404: the \<^verbatim>\<open>switch\<close> on the family, on the locals \<^verbatim>\<open>num_stripes\<close>,
  \<^verbatim>\<open>pages_per_stripe\<close> and \<^verbatim>\<open>mxt_dd\<close>. Case \<^verbatim>\<open>0x80\<close> has no \<^verbatim>\<open>break\<close> and
  runs on into case \<^verbatim>\<open>0xA0\<close>; case \<^verbatim>\<open>0xA2\<close> has none either and runs on into
  \<^verbatim>\<open>default\<close>, which logs a message and assigns nothing.
\<close>

type_synonym geometry = "int \<times> int \<times> mxt_debug_data"

definition case_0xA0 :: "geometry \<Rightarrow> geometry" where
  "case_0xA0 g = (case g of (ns, pps, s) \<Rightarrow> (3, 8, s\<lparr>x_size := 27\<rparr>))"

definition case_0x80 :: "int \<Rightarrow> geometry \<Rightarrow> geometry" where
  "case_0x80 x g = (case g of (ns, pps, s) \<Rightarrow> case_0xA0 (1, 4, s\<lparr>x_size := x\<rparr>))"

definition case_0xA1 :: "int \<Rightarrow> int \<Rightarrow> geometry \<Rightarrow> geometry" where
  "case_0xA1 variant x g =
     (case g of (ns, pps, s) \<Rightarrow>
        if variant = 0x03 then (1, 9, s\<lparr>x_size := x\<rparr>) else (1, 12, s\<lparr>x_size := x\<rparr>))"

definition case_default :: "geometry \<Rightarrow> geometry" where
  "case_default g = g"

definition case_0xA2 :: "int \<Rightarrow> int \<Rightarrow> geometry \<Rightarrow> geometry" where
  "case_0xA2 variant x g =
     (case g of (ns, pps, s) \<Rightarrow>
        if variant = 0x00 then case_default (1, 30, s\<lparr>x_size := x\<rparr>) else case_default g)"

definition select_geometry :: "info_id \<Rightarrow> int \<Rightarrow> geometry \<Rightarrow> geometry" where
  "select_geometry ident x g =
     (if family_id ident = 0x80 then case_0x80 x g
      else if family_id ident = 0xA0 then case_0xA0 g
      else if family_id ident = 0xA1 then case_0xA1 (variant_id ident) x g
      else if family_id ident = 0xA2 then case_0xA2 (variant_id ident) x g
      else case_default g)"

text \<open>Integer division of C: the quotient is truncated towards zero.\<close>

definition c_div :: "int \<Rightarrow> int \<Rightarrow> int" where
  "c_div a b = sgn a * sgn b * (\<bar>a\<bar> div \<bar>b\<bar>)"

text \<open>
  Lines 439--468: the loop over the frames. \<^verbatim>\<open>mxt_dd.frame\<close> is an \<^verbatim>\<open>unsigned int\<close>
  compared with \<^verbatim>\<open><=\<close>, so for \<^verbatim>\<open>frames = UINT_MAX\<close> the loop only ends by an error:
  \<open>None\<close> is a run that does not return. The return value of \<^verbatim>\<open>mxt_hawkeye_output\<close>
  is not looked at.
\<close>

partial_function (option) frame_loop ::
  "'d transport \<Rightarrow> dump_env \<Rightarrow> u32 \<Rightarrow> int \<Rightarrow> int \<Rightarrow> mxt_debug_data \<Rightarrow> 'd sys
     \<Rightarrow> (dd_error option \<times> mxt_debug_data \<times> 'd sys) option" where
  "frame_loop T E frames nstripes pages_per_stripe s w =
     (if frame s \<le> frames
      then (case stripe_loop T nstripes pages_per_stripe (s\<lparr>stripe := 0\<rparr>) w of
              (Some e, s1, w1) \<Rightarrow> Some (Some e, s1, w1)
            | (None, s1, w1) \<Rightarrow>
                (case mxt_hawkeye_output (localtime_at E (frame s1)) s1 w1 of
                   (r, w2) \<Rightarrow>
                     frame_loop T E frames nstripes pages_per_stripe (s1\<lparr>frame := frame s1 + 1\<rparr>) w2))
      else Some (None, s, w))"

declare frame_loop.simps [code]

text \<open>
  Lines 328--485. The result is the return value and the world after the call; a
  division by \<^verbatim>\<open>num_stripes = 0\<close> at line 408 traps, which is a run that does not
  return. The text printed to the terminal and the log messages are left out.
\<close>

definition mxt_debug_dump :: "'d transport \<Rightarrow> dump_env \<Rightarrow> int \<Rightarrow> 'd sys \<Rightarrow> (int \<times> 'd sys) option" where
  "mxt_debug_dump T E mode_arg w =
     (let frames = typed_frames E;
          x = matrix_x_size (info_block_id E);
          y = matrix_y_size (info_block_id E);
          s0 = (stack_mxt_dd E)\<lparr>mode := of_int mode_arg\<rparr>
      in case get_objects_addr E s0 of
           (ret, s1) \<Rightarrow>
             if ret \<noteq> 0 then Some (- 1, w)
             else
               (case select_geometry (info_block_id E) x
                       (stack_num_stripes E, stack_pages_per_stripe E, s1) of
                  (nstripes, pages_per_stripe, s2) \<Rightarrow>
                    if nstripes = 0 then None
                    else
                      (let s3 = s2\<lparr>page_size := of_int (t37_size s2 - 2)\<rparr>;
                           s4 = s3\<lparr>num_stripes := nstripes\<rparr>;
                           s5 = s4\<lparr>stripe_width := c_div y nstripes\<rparr>;
                           s6 = s5\<lparr>y_size := y\<rparr>
                       in case malloc_page_buf E of
                            None \<Rightarrow> Some (- 1, w)
                          | Some pb \<Rightarrow>
                              (case malloc_data_buf E of
                                 None \<Rightarrow> Some (- 1, w)
                               | Some db \<Rightarrow>
                                   if \<not> fopen_hawkeye E then Some (- 1, w)
                                   else
                                     (case frame_loop T E frames nstripes pages_per_stripe
                                             (s6\<lparr>page_buf := pb, data_buf := db, frame := 1\<rparr>)
                                             (w\<lparr>hawkeye_csv := Some []\<rparr>) of
                                        None \<Rightarrow> None
                                      | Some (Some e, s7, w7) \<Rightarrow> Some (ret_code (Some e), w7)
                                      | Some (None, s7, w7) \<Rightarrow>
                                          Some (0, mxt_hawkeye_generate_control_file
                                                     (fopen_control E) s7 w7))))))"

subsection \<open>A simulated chip\<close>

text \<open>
  A transport to run the tool on: a chip that holds a diagnostic mode and a page number,
  takes a mode command (any byte but \<open>PAGE_UP\<close>: the mode is set, the page is 0 again) and
  the page-up command, clears the command register at once unless it is \<open>sim_stuck\<close>,
  and answers a page read with bytes that count up from 16 times the page number. With
  \<open>sim_write_fails\<close> every register write fails with \<open>-1\<close> and changes nothing.
\<close>

record sim_chip =
  sim_mode :: u8
  sim_page :: u8
  sim_stuck :: bool
  sim_write_fails :: bool

definition sim_read :: "int \<Rightarrow> int \<Rightarrow> sim_chip \<Rightarrow> int \<Rightarrow> nat \<Rightarrow> int \<times> (nat \<Rightarrow> u8) \<times> sim_chip" where
  "sim_read cmd t37 d addr n =
     (if addr = cmd then (0, (\<lambda>k. if sim_stuck d then 1 else 0), d)
      else if addr = t37 then (0, (\<lambda>k. sim_mode d), d)
      else if addr = t37 + 1 then (0, (\<lambda>k. sim_page d), d)
      else (0, (\<lambda>k. of_nat k + 16 * sim_page d), d))"

definition sim_write :: "int \<Rightarrow> sim_chip \<Rightarrow> u8 list \<Rightarrow> int \<Rightarrow> int \<times> sim_chip" where
  "sim_write cmd d buf addr =
     (if sim_write_fails d then (- 1, d)
      else if addr = cmd
      then (case buf of
              [c] \<Rightarrow> if c = PAGE_UP then (0, d\<lparr>sim_page := sim_page d + 1\<rparr>)
                     else (0, d\<lparr>sim_mode := c, sim_page := 0\<rparr>)
            | _ \<Rightarrow> (0, d))
      else (0, d))"

definition sim_transport :: "int \<Rightarrow> int \<Rightarrow> sim_chip transport" where
  "sim_transport cmd t37 = \<lparr>read_register = sim_read cmd t37, write_register = sim_write cmd\<rparr>"

definition sim_sys :: "sim_chip \<Rightarrow> sim_chip sys" where
  "sim_sys d = \<lparr>chip = d, bus = [], hawkeye_csv = None, control_txt = None\<rparr>"

definition idle_chip :: sim_chip where
  "idle_chip = \<lparr>sim_mode = 0, sim_page = 0, sim_stuck = False, sim_write_fails = False\<rparr>"

definition zero_dd :: mxt_debug_data where
  "zero_dd = \<lparr>x_size = 0, y_size = 0, num_stripes = 0, stripe_width = 0, stripe_starty = 0,
     stripe_endy = 0, page_size = 0, mode = 0, diag_cmd_addr = 0, t37_addr = 0, t37_size = 0,
     frame = 0, stripe = 0, page = 0, x_ptr = 0, y_ptr = 0, page_buf = (\<lambda>k. 0), data_buf = (\<lambda>k. 0)\<rparr>"

definition sim_env :: "int \<Rightarrow> int \<Rightarrow> int \<Rightarrow> int \<Rightarrow> int \<Rightarrow> u32 \<Rightarrow> dump_env" where
  "sim_env fam var mx my sz n =
     \<lparr>typed_frames = n,
      info_block_id = \<lparr>family_id = fam, variant_id = var, matrix_x_size = mx, matrix_y_size = my\<rparr>,
      OBJECT_NOT_FOUND = 0, t6_object_address = 0x100, t37_object_address = 0x200,
      t37_object_size = sz, stack_num_stripes = 1, stack_pages_per_stripe = 1,
      stack_mxt_dd = zero_dd, malloc_page_buf = Some (\<lambda>k. 0), malloc_data_buf = Some (\<lambda>k. 0),
      fopen_hawkeye = True, fopen_control = True,
      localtime_at = (\<lambda>f. Some \<lparr>tm_hour = 12, tm_min = 34, tm_sec = 56\<rparr>)\<rparr>"

section \<open>Definitions used to state the properties\<close>

text \<open>The little-endian encoding of a signed 16-bit value: its low byte, then its high
  byte, in two's complement.\<close>

definition le16_lo :: "int \<Rightarrow> u8" where
  "le16_lo n = of_int n"

definition le16_hi :: "int \<Rightarrow> u8" where
  "le16_hi n = of_int (n div 256)"

text \<open>The write cursor lies in its stripe, and the stripe lies in the matrix rows.\<close>

definition cursor_ok :: "mxt_debug_data \<Rightarrow> bool" where
  "cursor_ok s =
     (0 \<le> stripe_starty s \<and> stripe_starty s \<le> y_ptr s \<and> y_ptr s \<le> stripe_endy s
      \<and> stripe_endy s < y_size s)"

text \<open>
  A 2 by 2 matrix in one stripe, the cursor at its start, and a page of 10 bytes: five
  samples, the fifth being \<open>0x5678\<close>.
\<close>

definition overrun_dd :: mxt_debug_data where
  "overrun_dd = zero_dd\<lparr>x_size := 2, y_size := 2, stripe_starty := 0, stripe_endy := 1,
     page_size := 10,
     page_buf := (\<lambda>k. if k = 8 then 0x78 else if k = 9 then 0x56 else 0)\<rparr>"

text \<open>A 3 by 2 matrix in one stripe and a page of 8 bytes whose fourth sample encodes \<open>-2\<close>.\<close>

definition round_trip_dd :: mxt_debug_data where
  "round_trip_dd = zero_dd\<lparr>x_size := 3, y_size := 2, stripe_starty := 0, stripe_endy := 1,
     page_size := 8,
     page_buf := (\<lambda>k. if k = 6 then 0xFE else if k = 7 then 0xFF else 0)\<rparr>"

text \<open>The state of the chip after \<open>n\<close> one-byte reads of the register at \<open>addr\<close>.\<close>

fun chip_after_polls :: "'d transport \<Rightarrow> int \<Rightarrow> 'd \<Rightarrow> nat \<Rightarrow> 'd" where
  "chip_after_polls T addr d 0 = d"
| "chip_after_polls T addr d (Suc n) =
     chip_after_polls T addr (snd (snd (read_register T d addr 1))) n"

text \<open>In state \<open>d\<close> a read of the command register succeeds and gives a byte that is
  not zero: the command has not been cleared.\<close>

definition poll_not_cleared :: "'d transport \<Rightarrow> int \<Rightarrow> 'd \<Rightarrow> bool" where
  "poll_not_cleared T addr d =
     (case read_register T d addr 1 of (ret, buf, d') \<Rightarrow> \<not> ret < 0 \<and> buf 0 \<noteq> 0)"

text \<open>The two kinds of transfer the fetcher makes on the command register: the command it
  writes for the page of \<open>s\<close>, and one poll.\<close>

definition command_sent :: "mxt_debug_data \<Rightarrow> bus_op" where
  "command_sent s = Reg_write (diag_cmd_addr s) [if page s = 0 then mode s else PAGE_UP]"

definition poll :: "mxt_debug_data \<Rightarrow> bus_op" where
  "poll s = Reg_read (diag_cmd_addr s) 1"

text \<open>The simulated chip in three conditions: its command register never clears; every
  write to it fails; it is at page 5 of the deltas.\<close>

definition stuck_chip :: sim_chip where
  "stuck_chip = idle_chip\<lparr>sim_stuck := True\<rparr>"

definition failing_write_chip :: sim_chip where
  "failing_write_chip = idle_chip\<lparr>sim_mode := 0x10, sim_write_fails := True\<rparr>"

definition desync_chip :: sim_chip where
  "desync_chip = idle_chip\<lparr>sim_mode := 0x10, sim_page := 5\<rparr>"

text \<open>A request for page 0 of the deltas (mode \<open>0x10\<close>), the command register at \<open>0x105\<close>,
  the diagnostic object at \<open>0x200\<close> with pages of 4 bytes; the same for page 1; and the
  world after the first \<open>n\<close> transfers of that second request on the chip at page 5.\<close>

definition fetch_dd :: mxt_debug_data where
  "fetch_dd = zero_dd\<lparr>diag_cmd_addr := 0x105, t37_addr := 0x200, mode := 0x10, page_size := 4\<rparr>"

definition desync_dd :: mxt_debug_data where
  "desync_dd = fetch_dd\<lparr>page := 1\<rparr>"

definition desync_sys :: "nat \<Rightarrow> sim_chip sys" where
  "desync_sys n = \<lparr>chip = desync_chip\<lparr>sim_page := 6\<rparr>,
     bus = take n [Reg_write 0x105 [0x01], Reg_read 0x105 1, Reg_read 0x200 1, Reg_read 0x201 1],
     hawkeye_csv = None, control_txt = None\<rparr>"

text \<open>The cells \<open>(x, y)\<close> of the matrix, column by column: \<open>x\<close> outer, \<open>y\<close> inner.\<close>

definition matrix_cells :: "mxt_debug_data \<Rightarrow> (int \<times> int) list" where
  "matrix_cells s = concat (map (\<lambda>x. map (\<lambda>y. (x, y)) [0..y_size s - 1]) [0..x_size s - 1])"

text \<open>One cell of a log record: the signed 16-bit value in decimal, and a comma.\<close>

definition cell_text :: "mxt_debug_data \<Rightarrow> int \<times> int \<Rightarrow> string" where
  "cell_text s c = (case c of (x, y) \<Rightarrow> dec_int (sint (data_buf s (y + x * y_size s))) @ '','')"

text \<open>The time of day as two digits each for the hour, the minute and the second, with
  colons between them.\<close>

definition hh_mm_ss :: "tm \<Rightarrow> string" where
  "hh_mm_ss t =
     [digit_char (nat (tm_hour t div 10)), digit_char (nat (tm_hour t mod 10)), CHR '':'',
      digit_char (nat (tm_min t div 10)), digit_char (nat (tm_min t mod 10)), CHR '':'',
      digit_char (nat (tm_sec t div 10)), digit_char (nat (tm_sec t mod 10))]"

text \<open>The ranges of \<^verbatim>\<open>struct tm\<close> (the second 60 is a leap second).\<close>

definition tm_ok :: "tm \<Rightarrow> bool" where
  "tm_ok t = (0 \<le> tm_hour t \<and> tm_hour t < 24 \<and> 0 \<le> tm_min t \<and> tm_min t < 60
              \<and> 0 \<le> tm_sec t \<and> tm_sec t \<le> 60)"

text \<open>A time, a 2 by 2 matrix holding 0, -2, 2, 3 as frame 1, and a world in which the log
  has been opened.\<close>

definition noon_tm :: tm where
  "noon_tm = \<lparr>tm_hour = 12, tm_min = 34, tm_sec = 56\<rparr>"

definition frame_dd :: mxt_debug_data where
  "frame_dd = zero_dd\<lparr>x_size := 2, y_size := 2, frame := 1,
     data_buf := (\<lambda>k. if k = 1 then 0xFFFE else of_int k)\<rparr>"

definition open_sys :: "sim_chip sys" where
  "open_sys = (sim_sys idle_chip)\<lparr>hawkeye_csv := Some []\<rparr>"

text \<open>The commands written in a run: the bytes of every register write on the bus, in
  order.\<close>

fun commands :: "bus_op list \<Rightarrow> u8 list list" where
  "commands [] = []"
| "commands (Reg_write a b # ops) = b # commands ops"
| "commands (Reg_read a n # ops) = commands ops"

text \<open>
  The command for the page with index \<open>idx\<close> within its frame: the mode value for index 0,
  the page-up command for any other. The commands of stripe \<open>st\<close>, whose pages have the
  indices \<open>pps * st + pg\<close>, and of one frame of \<open>ns\<close> stripes.
\<close>

definition page_command :: "u8 \<Rightarrow> int \<Rightarrow> u8 list" where
  "page_command md idx = [if idx = 0 then md else PAGE_UP]"

definition stripe_commands :: "u8 \<Rightarrow> int \<Rightarrow> int \<Rightarrow> u8 list list" where
  "stripe_commands md pps st = map (\<lambda>pg. page_command md (pps * st + pg)) [0..pps - 1]"

definition frame_commands :: "u8 \<Rightarrow> int \<Rightarrow> int \<Rightarrow> u8 list list" where
  "frame_commands md ns pps = concat (map (stripe_commands md pps) [0..ns - 1])"

text \<open>
  \<open>cmds\<close> is what a session writes that got through \<open>n\<close> whole frames and then through
  some pages of one more: \<open>n\<close> times the commands of a frame, then a first part \<open>sent\<close> of
  them. A session that was not aborted (\<open>complete\<close>) ends with a whole frame.
\<close>

definition session_commands ::
  "u8 \<Rightarrow> int \<Rightarrow> int \<Rightarrow> nat \<Rightarrow> bool \<Rightarrow> u8 list list \<Rightarrow> bool" where
  "session_commands md ns pps n complete cmds =
     (\<exists>sent rest. frame_commands md ns pps = sent @ rest
        \<and> cmds = concat (replicate n (frame_commands md ns pps)) @ sent
        \<and> (complete \<longrightarrow> sent = []))"

text \<open>What a returning run of the frame loop has written, and how many frames it got
  through when no error ended it.\<close>

definition frame_loop_post ::
  "u32 \<Rightarrow> int \<Rightarrow> int \<Rightarrow> mxt_debug_data \<Rightarrow> 'd sys
     \<Rightarrow> dd_error option \<times> mxt_debug_data \<times> 'd sys \<Rightarrow> bool" where
  "frame_loop_post frames ns pps s w res =
     (\<exists>n cmds. commands (bus (snd (snd res))) = commands (bus w) @ cmds
        \<and> session_commands (mode s) ns pps n (fst res = None) cmds
        \<and> (fst res = None \<and> frames < 0xFFFFFFFF \<and> frame s \<le> frames + 1
             \<longrightarrow> n = unat (frames + 1 - frame s)))"

text \<open>The struct with which \<open>mxt_debug_dump\<close> enters the frame loop (lines 406--409, 418,
  424 and 439), from the struct \<open>s2\<close> that the \<^verbatim>\<open>switch\<close> leaves.\<close>

definition capture_dd ::
  "dump_env \<Rightarrow> int \<Rightarrow> mxt_debug_data \<Rightarrow> (int \<Rightarrow> u8) \<Rightarrow> (int \<Rightarrow> u16) \<Rightarrow> mxt_debug_data" where
  "capture_dd E ns s2 pb db =
     s2\<lparr>page_size := of_int (t37_size s2 - 2), num_stripes := ns,
        stripe_width := c_div (matrix_y_size (info_block_id E)) ns,
        y_size := matrix_y_size (info_block_id E), page_buf := pb, data_buf := db, frame := 1\<rparr>"

text \<open>What the \<^verbatim>\<open>switch\<close> leaves in the locals for the environment \<open>E\<close> and the mode
  argument \<open>m\<close>.\<close>

definition sim_geometry :: "dump_env \<Rightarrow> int \<Rightarrow> geometry" where
  "sim_geometry E m =
     select_geometry (info_block_id E) (matrix_x_size (info_block_id E))
       (stack_num_stripes E, stack_pages_per_stripe E,
        snd (get_objects_addr E ((stack_mxt_dd E)\<lparr>mode := of_int m\<rparr>)))"

text \<open>
  The struct at the start of the only stripe of frame 1, for a chip of family \<open>0xA1\<close>,
  variant \<open>0x03\<close> with a 1 by 1 matrix and a T37 object of 6 bytes (pages of 4 bytes, two
  samples each): what \<open>mxt_debug_dump\<close> sets up for \<open>sim_env 0xA1 3 1 1 6 1\<close>.
\<close>

definition tiny_dd :: mxt_debug_data where
  "tiny_dd = zero_dd\<lparr>x_size := 1, y_size := 1, num_stripes := 1, stripe_width := 1,
     stripe_starty := 0, stripe_endy := 0, page_size := 4, mode := 0x10,
     diag_cmd_addr := 0x105, t37_addr := 0x200, t37_size := 6, frame := 1, stripe := 0,
     x_ptr := 0, y_ptr := 0\<rparr>"

text \<open>The line of the layout descriptor for the cell \<open>(x, y)\<close>.\<close>

definition control_line :: "int \<times> int \<Rightarrow> string" where
  "control_line c =
     (case c of (x, y) \<Rightarrow>
        ''int16_lsb_msb,'' @ dec_int (y + 1) @ '','' @ dec_int (x + 1) @ '',X'' @ dec_int x
          @ ''Y'' @ dec_int y @ ''_Delta16'' @ [CHR 0x0A])"

section \<open>Properties of the frame assembler\<close>

lemma sample16_le16: "sample16 (le16_hi n) (le16_lo n) = of_int n"
proof -
  have d: "n div 256 = drop_bit 8 n" by (simp add: drop_bit_eq_div)
  show ?thesis
    unfolding sample16_def le16_hi_def le16_lo_def d
    by (rule bit_word_eqI) (auto simp: bit_simps)
qed

lemma sint_of_int16: "- 32768 \<le> n \<Longrightarrow> n < 32768 \<Longrightarrow> sint (of_int n :: u16) = n"
  by (simp add: sint_sbintrunc' signed_take_bit_int_eq_self)

text \<open>Two cells of the matrix with the same offset \<open>y + x * Y\<close> are the same cell.\<close>

lemma offset_inj:
  fixes y x y' x' Y :: int
  assumes "0 \<le> y" "y < Y" "0 \<le> y'" "y' < Y" "y + x * Y = y' + x' * Y"
  shows "x = x' \<and> y = y'"
proof -
  have "(y + x * Y) mod Y = y" "(y' + x' * Y) mod Y = y'" using assms(1-4) by simp_all
  then have "y = y'" using assms(5) by metis
  moreover have "Y \<noteq> 0" using assms by auto
  ultimately show ?thesis using assms(5) by simp
qed

lemma insert_sample_fields [simp]:
  "page_buf (insert_sample s i) = page_buf s"
  "page_size (insert_sample s i) = page_size s"
  "x_size (insert_sample s i) = x_size s"
  "y_size (insert_sample s i) = y_size s"
  "stripe_starty (insert_sample s i) = stripe_starty s"
  "stripe_endy (insert_sample s i) = stripe_endy s"
  by (simp_all add: insert_sample_def Let_def)

lemma insert_sample_cursor:
  "x_ptr (insert_sample s i) = (if y_ptr s + 1 > stripe_endy s then x_ptr s + 1 else x_ptr s)"
  "y_ptr (insert_sample s i) = (if y_ptr s + 1 > stripe_endy s then stripe_starty s else y_ptr s + 1)"
  by (simp_all add: insert_sample_def Let_def)

lemma insert_sample_data:
  "data_buf (insert_sample s i) =
     (data_buf s)(y_ptr s + x_ptr s * y_size s := sample16 (page_buf s (i + 1)) (page_buf s i))"
  by (simp add: insert_sample_def Let_def)

lemma cursor_ok_insert_sample: "cursor_ok s \<Longrightarrow> cursor_ok (insert_sample s i)"
  by (auto simp: cursor_ok_def insert_sample_cursor)

lemma insert_loop_keeps_earlier:
  assumes "cursor_ok s" "0 \<le> cy" "cy < y_size s"
    and "cx < x_ptr s \<or> (cx = x_ptr s \<and> cy < y_ptr s)"
  shows "data_buf (snd (insert_loop s i)) (cy + cx * y_size s) = data_buf s (cy + cx * y_size s)"
  using assms
proof (induction s i rule: insert_loop.induct)
  case (1 s i)
  show ?case
  proof (cases "i < uint (page_size s) \<and> \<not> x_ptr s > x_size s")
    case False
    then show ?thesis by (subst insert_loop.simps) auto
  next
    case True
    let ?s1 = "insert_sample s i"
    have ok1: "cursor_ok ?s1" using "1.prems"(1) by (rule cursor_ok_insert_sample)
    have before1: "cx < x_ptr ?s1 \<or> (cx = x_ptr ?s1 \<and> cy < y_ptr ?s1)"
      using "1.prems" by (auto simp: insert_sample_cursor cursor_ok_def)
    have IH: "data_buf (snd (insert_loop ?s1 (i + 2))) (cy + cx * y_size s) = data_buf ?s1 (cy + cx * y_size s)"
      using "1.IH" [of] True ok1 "1.prems"(2,3) before1 by simp
    have ne: "cy + cx * y_size s \<noteq> y_ptr s + x_ptr s * y_size s"
    proof
      assume "cy + cx * y_size s = y_ptr s + x_ptr s * y_size s"
      then have "cx = x_ptr s \<and> cy = y_ptr s"
        using "1.prems" by (intro offset_inj [of cy "y_size s" "y_ptr s"]) (auto simp: cursor_ok_def)
      then show False using "1.prems"(4) by auto
    qed
    have "insert_loop s i = insert_loop ?s1 (i + 2)"
      using True by (subst insert_loop.simps) auto
    then show ?thesis using IH ne by (simp add: insert_sample_data)
  qed
qed

lemma insert_loop_sample:
  assumes "cursor_ok s" "i + 2 * int k < uint (page_size s)"
    and "x_ptr s + (y_ptr s - stripe_starty s + int k) div (stripe_endy s - stripe_starty s + 1) \<le> x_size s"
  shows "data_buf (snd (insert_loop s i))
           (stripe_starty s + (y_ptr s - stripe_starty s + int k) mod (stripe_endy s - stripe_starty s + 1)
            + (x_ptr s + (y_ptr s - stripe_starty s + int k) div (stripe_endy s - stripe_starty s + 1)) * y_size s)
         = sample16 (page_buf s (i + 2 * int k + 1)) (page_buf s (i + 2 * int k))"
  using assms
proof (induction k arbitrary: s i)
  case 0
  let ?w = "stripe_endy s - stripe_starty s + 1"
  let ?s1 = "insert_sample s i"
  have small: "0 \<le> y_ptr s - stripe_starty s" "y_ptr s - stripe_starty s < ?w"
    using "0.prems"(1) by (auto simp: cursor_ok_def)
  have dm: "(y_ptr s - stripe_starty s) div ?w = 0" "(y_ptr s - stripe_starty s) mod ?w = y_ptr s - stripe_starty s"
    using small by simp_all
  have cont: "insert_loop s i = insert_loop ?s1 (i + 2)"
    using "0.prems" dm by (subst insert_loop.simps) auto
  have "data_buf (snd (insert_loop ?s1 (i + 2))) (y_ptr s + x_ptr s * y_size ?s1)
          = data_buf ?s1 (y_ptr s + x_ptr s * y_size ?s1)"
    using "0.prems"(1)
    by (intro insert_loop_keeps_earlier cursor_ok_insert_sample)
       (auto simp: insert_sample_cursor cursor_ok_def)
  then show ?case using cont dm by (simp add: insert_sample_data)
next
  case (Suc k)
  let ?w = "stripe_endy s - stripe_starty s + 1"
  let ?j = "y_ptr s - stripe_starty s + int (Suc k)"
  let ?s1 = "insert_sample s i"
  have wpos: "0 < ?w" and jpos: "0 \<le> ?j" using Suc.prems(1) by (auto simp: cursor_ok_def)
  have "0 \<le> ?j div ?w" using wpos jpos by (simp add: pos_imp_zdiv_nonneg_iff)
  then have nooverrun: "\<not> x_ptr s > x_size s" using Suc.prems(3) by linarith
  have cont: "insert_loop s i = insert_loop ?s1 (i + 2)"
    using Suc.prems(2) nooverrun by (subst insert_loop.simps) auto
  have ok1: "cursor_ok ?s1" using Suc.prems(1) by (rule cursor_ok_insert_sample)
  have idx: "i + 2 + 2 * int k = i + 2 * int (Suc k)" by simp
  show ?case
  proof (cases "y_ptr s + 1 > stripe_endy s")
    case False
    then have cur: "x_ptr ?s1 = x_ptr s" "y_ptr ?s1 = y_ptr s + 1" by (simp_all add: insert_sample_cursor)
    have j1: "y_ptr ?s1 - stripe_starty ?s1 + int k = ?j" using cur by simp
    show ?thesis
      using Suc.IH [of ?s1 "i + 2"] ok1 Suc.prems(2,3) cont
      unfolding j1 by (simp add: cur algebra_simps)
  next
    case True
    then have yend: "y_ptr s = stripe_endy s" using Suc.prems(1) by (auto simp: cursor_ok_def)
    have cur: "x_ptr ?s1 = x_ptr s + 1" "y_ptr ?s1 = stripe_starty s" using True by (simp_all add: insert_sample_cursor)
    have j: "?j = int k + ?w" using yend by simp
    have wne: "?w \<noteq> 0" using wpos by simp
    have jd: "?j div ?w = int k div ?w + 1"
      unfolding j using wne by (rule div_add_self2)
    have jm: "?j mod ?w = int k mod ?w"
      unfolding j by (rule mod_add_self2)
    have j1: "y_ptr ?s1 - stripe_starty ?s1 + int k = int k" using cur by simp
    show ?thesis
      using Suc.IH [of ?s1 "i + 2"] ok1 Suc.prems(2,3) cont
      unfolding j1 jd jm by (simp add: cur algebra_simps)
  qed
qed

text \<open>
  What the check of line 194 does ensure: with the cursor in its stripe and the stripe in
  the matrix rows, no cell at an offset at or past \<open>(x_size + 1) * y_size\<close> is written. The
  writes stay within the columns 0 to \<open>x_size\<close>, which is one column more than the matrix
  has.
\<close>

lemma insert_loop_confined:
  assumes "cursor_ok s" and "(x_size s + 1) * y_size s \<le> ofs"
  shows "data_buf (snd (insert_loop s i)) ofs = data_buf s ofs"
  using assms
proof (induction s i rule: insert_loop.induct)
  case (1 s i)
  show ?case
  proof (cases "i < uint (page_size s) \<and> \<not> x_ptr s > x_size s")
    case False
    then show ?thesis by (subst insert_loop.simps) auto
  next
    case True
    let ?s1 = "insert_sample s i"
    have ok1: "cursor_ok ?s1" using "1.prems"(1) by (rule cursor_ok_insert_sample)
    have IH: "data_buf (snd (insert_loop ?s1 (i + 2))) ofs = data_buf ?s1 ofs"
      using "1.IH" True ok1 "1.prems"(2) by simp
    have y: "0 \<le> y_size s" "y_ptr s < y_size s" using "1.prems"(1) by (auto simp: cursor_ok_def)
    have "x_ptr s * y_size s \<le> x_size s * y_size s"
      using True y(1) by (intro mult_right_mono) auto
    then have "y_ptr s + x_ptr s * y_size s < (x_size s + 1) * y_size s"
      using y(2) by (simp add: algebra_simps)
    then have ne: "ofs \<noteq> y_ptr s + x_ptr s * y_size s" using "1.prems"(2) by simp
    have "insert_loop s i = insert_loop ?s1 (i + 2)"
      using True by (subst insert_loop.simps) auto
    then show ?thesis using IH ne by (simp add: insert_sample_data)
  qed
qed

lemma insert_data_confined:
  "cursor_ok s \<Longrightarrow> (x_size s + 1) * y_size s \<le> ofs \<Longrightarrow>
   data_buf (snd (mxt_debug_insert_data s)) ofs = data_buf s ofs"
  by (simp add: mxt_debug_insert_data_def insert_loop_confined)

text \<open>
  C1. Claim: before every sample write the assembler checks the cursor and fails with the
  overrun error rather than writing a cell whose x coordinate is beyond the x size, so
  that no write lands at a matrix offset at or past \<open>x_size * y_size\<close>.
  The check of line 194 is \<^verbatim>\<open>x_ptr > x_size\<close>, which lets the column \<open>x_ptr = x_size\<close>
  through: on a 2 by 2 matrix, whose buffer has the 4 cells 0..3 (line 424), a page of five
  samples is taken without an error and its fifth sample is stored at offset 4.
\<close>

theorem insert_data_writes_past_matrix:
  "fst (mxt_debug_insert_data overrun_dd) = None \<and>
   data_buf overrun_dd 4 = 0 \<and>
   data_buf (snd (mxt_debug_insert_data overrun_dd)) 4 = 0x5678 \<and>
   x_size overrun_dd * y_size overrun_dd \<le> 4"
  by (simp add: mxt_debug_insert_data_def overrun_dd_def zero_dd_def insert_loop.simps
      insert_sample_def Let_def sample16_def)

text \<open>
  C8. The assembler decodes each byte pair of the page as a little-endian 16-bit value,
  stores it at offset \<open>y + x * y_size\<close>, moves the cursor one row down and, past the end of
  the stripe, to the start of the stripe in the next column. Hence the \<open>k\<close>-th sample of a
  page (counting from 0), which is \<open>j = (y_ptr - stripe_starty) + k\<close> cells after the start
  of the cursor's column in a stripe of \<open>w\<close> rows, lands in column \<open>x_ptr + j div w\<close> and row
  \<open>stripe_starty + j mod w\<close>; if that column is not beyond \<open>x_size\<close> and the two bytes are
  the little-endian encoding of a signed 16-bit value \<open>n\<close>, the cell holds \<open>n\<close> when the
  assembler returns, read as the serializer reads it.
\<close>

theorem insert_data_round_trip:
  assumes "cursor_ok s"
    and "2 * int k < uint (page_size s)"
    and "- 32768 \<le> n" and "n < 32768"
    and "page_buf s (2 * int k) = le16_lo n"
    and "page_buf s (2 * int k + 1) = le16_hi n"
    and "j = y_ptr s - stripe_starty s + int k"
    and "w = stripe_endy s - stripe_starty s + 1"
    and "x_ptr s + j div w \<le> x_size s"
  shows "sint (data_buf (snd (mxt_debug_insert_data s))
           ((stripe_starty s + j mod w) + (x_ptr s + j div w) * y_size s)) = n"
proof -
  have "data_buf (snd (insert_loop s 0))
          (stripe_starty s + j mod w + (x_ptr s + j div w) * y_size s)
        = sample16 (page_buf s (0 + 2 * int k + 1)) (page_buf s (0 + 2 * int k))"
    unfolding assms(7,8)
    using assms(1,2,9) by (intro insert_loop_sample) (simp_all add: assms(7,8))
  also have "\<dots> = of_int n"
    using assms(5,6) by (simp add: sample16_le16)
  finally show ?thesis
    using assms(3,4) by (simp add: mxt_debug_insert_data_def sint_of_int16)
qed

theorem insert_data_round_trip_witness:
  "cursor_ok round_trip_dd \<and> page_buf round_trip_dd 6 = le16_lo (- 2)
   \<and> page_buf round_trip_dd 7 = le16_hi (- 2)
   \<and> sint (data_buf (snd (mxt_debug_insert_data round_trip_dd)) 3) = - 2"
proof -
  have ok: "cursor_ok round_trip_dd"
    by (simp add: round_trip_dd_def zero_dd_def cursor_ok_def)
  have k: "2 * int 3 < uint (page_size round_trip_dd)"
    by (simp add: round_trip_dd_def zero_dd_def)
  have lo: "page_buf round_trip_dd (2 * int 3) = le16_lo (- 2)"
    by (simp add: round_trip_dd_def zero_dd_def le16_lo_def)
  have hi: "page_buf round_trip_dd (2 * int 3 + 1) = le16_hi (- 2)"
    by (simp add: round_trip_dd_def zero_dd_def le16_hi_def)
  have j: "3 = y_ptr round_trip_dd - stripe_starty round_trip_dd + int 3"
    by (simp add: round_trip_dd_def zero_dd_def)
  have w: "2 = stripe_endy round_trip_dd - stripe_starty round_trip_dd + 1"
    by (simp add: round_trip_dd_def zero_dd_def)
  have x: "x_ptr round_trip_dd + 3 div 2 \<le> x_size round_trip_dd"
    by (simp add: round_trip_dd_def zero_dd_def)
  have ofs: "stripe_starty round_trip_dd + 3 mod 2 + (x_ptr round_trip_dd + 3 div 2) * y_size round_trip_dd = 3"
    by (simp add: round_trip_dd_def zero_dd_def)
  have "sint (data_buf (snd (mxt_debug_insert_data round_trip_dd)) 3) = - 2"
    using insert_data_round_trip [OF ok k _ _ lo hi j w x] unfolding ofs by simp
  then show ?thesis using ok lo hi by simp
qed

section \<open>Properties of the page fetcher\<close>

lemma send_command_bus: "bus (send_command T s w) = bus w @ [command_sent s]"
  by (simp add: send_command_def mxt_write_register_def command_sent_def split: prod.splits)

lemma send_command_files:
  "hawkeye_csv (send_command T s w) = hawkeye_csv w"
  "control_txt (send_command T s w) = control_txt w"
  by (simp_all add: send_command_def mxt_write_register_def split: prod.splits)

lemma wait_command_never_cleared:
  assumes "\<forall>n. poll_not_cleared T (diag_cmd_addr s) (chip_after_polls T (diag_cmd_addr s) (chip w) n)"
    and "f \<le> 500"
  shows "wait_command T s f w =
           (Some Timeout_waiting,
            w\<lparr>chip := chip_after_polls T (diag_cmd_addr s) (chip w) (nat (501 - f)),
              bus := bus w @ replicate (nat (501 - f)) (poll s)\<rparr>)"
  using assms
proof (induction "nat (500 - f)" arbitrary: f w)
  case 0
  then have f: "f = 500" by simp
  obtain ret buf d where rd: "read_register T (chip w) (diag_cmd_addr s) 1 = (ret, buf, d)"
    by (cases "read_register T (chip w) (diag_cmd_addr s) 1") auto
  have "poll_not_cleared T (diag_cmd_addr s) (chip w)"
    using "0.prems"(1) [rule_format, of 0] by simp
  then have nc: "\<not> ret < 0" "buf 0 \<noteq> 0" using rd by (simp_all add: poll_not_cleared_def)
  show ?case
    unfolding f using rd nc
    by (subst wait_command.simps) (simp add: mxt_read_register_def poll_def)
next
  case (Suc m)
  then have f: "f < 500" by simp
  obtain ret buf d where rd: "read_register T (chip w) (diag_cmd_addr s) 1 = (ret, buf, d)"
    by (cases "read_register T (chip w) (diag_cmd_addr s) 1") auto
  have "poll_not_cleared T (diag_cmd_addr s) (chip w)"
    using Suc.prems(1) [rule_format, of 0] by simp
  then have nc: "\<not> ret < 0" "buf 0 \<noteq> 0" using rd by (simp_all add: poll_not_cleared_def)
  let ?w1 = "w\<lparr>chip := d, bus := bus w @ [poll s]\<rparr>"
  have step: "wait_command T s f w = wait_command T s (f + 1) ?w1"
    using rd nc f by (subst wait_command.simps) (simp add: mxt_read_register_def poll_def)
  have never1: "\<forall>n. poll_not_cleared T (diag_cmd_addr s) (chip_after_polls T (diag_cmd_addr s) (chip ?w1) n)"
  proof
    fix n
    show "poll_not_cleared T (diag_cmd_addr s) (chip_after_polls T (diag_cmd_addr s) (chip ?w1) n)"
      using Suc.prems(1) [rule_format, of "Suc n"] rd by simp
  qed
  have m: "m = nat (500 - (f + 1))" using Suc.hyps(2) by simp
  have n: "nat (501 - f) = Suc (nat (501 - (f + 1)))" using f by simp
  have IH: "wait_command T s (f + 1) ?w1 =
     (Some Timeout_waiting,
      ?w1\<lparr>chip := chip_after_polls T (diag_cmd_addr s) (chip ?w1) (nat (501 - (f + 1))),
          bus := bus ?w1 @ replicate (nat (501 - (f + 1))) (poll s)\<rparr>)"
    using Suc.hyps(1) [OF m never1] f by simp
  show ?case
    unfolding step IH n using rd by simp
qed

lemma sim_read_chip: "snd (snd (read_register (sim_transport c t) d a k)) = d"
  by (simp add: sim_transport_def sim_read_def)

lemma sim_chip_after_polls: "chip_after_polls (sim_transport c t) a d n = d"
  by (induction n) (simp_all add: sim_read_chip)

lemma count_list_replicate_eq: "count_list (replicate n x) y = (if x = y then n else 0)"
  by (induction n) auto

lemma stuck_chip_never_cleared:
  "\<forall>n. poll_not_cleared (sim_transport 0x105 0x200) (diag_cmd_addr fetch_dd)
         (chip_after_polls (sim_transport 0x105 0x200) (diag_cmd_addr fetch_dd)
            (chip (send_command (sim_transport 0x105 0x200) fetch_dd (sim_sys stuck_chip))) n)"
  unfolding sim_chip_after_polls
  by (simp add: poll_not_cleared_def send_command_def mxt_write_register_def
      sim_transport_def sim_read_def sim_write_def fetch_dd_def zero_dd_def sim_sys_def
      stuck_chip_def idle_chip_def PAGE_UP_def)

text \<open>
  C4, as stated (the fetcher gives up after exactly 500 polls that were not cleared), fails:
  on the chip whose command register never clears, the fetcher polls 501 times.
\<close>

theorem dump_page_timeout_500_counterexample:
  "(\<forall>n. poll_not_cleared (sim_transport 0x105 0x200) (diag_cmd_addr fetch_dd)
         (chip_after_polls (sim_transport 0x105 0x200) (diag_cmd_addr fetch_dd)
            (chip (send_command (sim_transport 0x105 0x200) fetch_dd (sim_sys stuck_chip))) n))
   \<and> count_list (bus (snd (snd (mxt_debug_dump_page (sim_transport 0x105 0x200) fetch_dd
          (sim_sys stuck_chip))))) (poll fetch_dd) = 501
   \<and> count_list (bus (snd (snd (mxt_debug_dump_page (sim_transport 0x105 0x200) fetch_dd
          (sim_sys stuck_chip))))) (poll fetch_dd) \<noteq> 500"
proof -
  have "bus (snd (snd (mxt_debug_dump_page (sim_transport 0x105 0x200) fetch_dd (sim_sys stuck_chip))))
        = bus (sim_sys stuck_chip) @ command_sent fetch_dd # replicate 501 (poll fetch_dd)"
    using wait_command_never_cleared [OF stuck_chip_never_cleared, of 0]
    by (simp add: mxt_debug_dump_page_def send_command_bus)
  then have "count_list (bus (snd (snd (mxt_debug_dump_page (sim_transport 0x105 0x200) fetch_dd
          (sim_sys stuck_chip))))) (poll fetch_dd) = 501"
    by (simp add: sim_sys_def command_sent_def poll_def count_list_replicate_eq)
  then show ?thesis using stuck_chip_never_cleared by simp
qed

lemma wait_command_bus:
  "wait_command T s f w = (r, w1) \<Longrightarrow> \<exists>n>0. bus w1 = bus w @ replicate n (poll s)"
proof (induction T s f w rule: wait_command.induct)
  case (1 T s f w)
  obtain ret buf d where rd: "read_register T (chip w) (diag_cmd_addr s) 1 = (ret, buf, d)"
    by (cases "read_register T (chip w) (diag_cmd_addr s) 1") auto
  let ?w1 = "w\<lparr>chip := d, bus := bus w @ [poll s]\<rparr>"
  have rd': "mxt_read_register T w (diag_cmd_addr s) 1 = (ret, buf, ?w1)"
    using rd by (simp add: mxt_read_register_def poll_def)
  show ?case
  proof (cases "\<not> ret < 0 \<and> buf 0 \<noteq> 0 \<and> \<not> f + 1 > 500")
    case True
    then have "wait_command T s f w = wait_command T s (f + 1) ?w1"
      using rd' by (subst wait_command.simps) simp
    then have "wait_command T s (f + 1) ?w1 = (r, w1)" using "1.prems" by simp
    then obtain n where "bus w1 = bus ?w1 @ replicate n (poll s)"
      using "1.IH" [OF rd' [symmetric] refl] True by blast
    then have "bus w1 = bus w @ replicate (Suc n) (poll s)" by simp
    then show ?thesis by blast
  next
    case False
    then have "w1 = ?w1"
      using "1.prems" rd' by (subst (asm) wait_command.simps) (auto split: if_splits)
    then have "bus w1 = bus w @ replicate (Suc 0) (poll s)" by simp
    then show ?thesis by blast
  qed
qed

text \<open>
  C4, amended. If the command register never reads back as cleared, the fetcher fails with
  the timeout error after exactly 501 polls: the counter is tested with
  \<^verbatim>\<open>failures > 500\<close> after it has been incremented. The transfers of the call are the
  command written and 501 reads of the command register, nothing else.
\<close>

theorem dump_page_timeout_after_501_polls:
  assumes "\<forall>n. poll_not_cleared T (diag_cmd_addr s)
                 (chip_after_polls T (diag_cmd_addr s) (chip (send_command T s w)) n)"
  shows "fst (mxt_debug_dump_page T s w) = Some Timeout_waiting \<and>
         bus (snd (snd (mxt_debug_dump_page T s w))) = bus w @ command_sent s # replicate 501 (poll s)"
  using wait_command_never_cleared [OF assms, of 0]
  by (simp add: mxt_debug_dump_page_def send_command_bus)

theorem dump_page_timeout_after_501_polls_witness:
  "fst (mxt_debug_dump_page (sim_transport 0x105 0x200) fetch_dd (sim_sys stuck_chip))
     = Some Timeout_waiting \<and>
   bus (snd (snd (mxt_debug_dump_page (sim_transport 0x105 0x200) fetch_dd (sim_sys stuck_chip))))
     = Reg_write 0x105 [0x10] # replicate 501 (Reg_read 0x105 1)"
  using dump_page_timeout_after_501_polls [OF stuck_chip_never_cleared]
  by (simp add: sim_sys_def command_sent_def poll_def fetch_dd_def zero_dd_def)

text \<open>
  C7. If the command has been actioned, the two echo reads succeed, and the echoed mode
  or the echoed page differs from the requested one, the fetcher fails with the
  bad page/mode error at once: the page buffer is unchanged, and the transfers of the call
  are the one command written, the polls and the two echo reads, with no read of the page
  after them and no second command.
\<close>

theorem dump_page_mismatch_aborts:
  assumes "wait_command T s 0 (send_command T s w) = (None, w1)"
    and "mxt_read_register T w1 (t37_addr s) 1 = (r1, echo_mode, w2)" and "\<not> r1 < 0"
    and "mxt_read_register T w2 (t37_addr s + 1) 1 = (r2, echo_page, w3)" and "\<not> r2 < 0"
    and "echo_mode 0 \<noteq> mode s \<or> uint (echo_page 0) \<noteq> page s"
  shows "mxt_debug_dump_page T s w = (Some Bad_page_mode, s, w3) \<and>
         (\<exists>n>0. bus w3 = bus w @ command_sent s # replicate n (poll s)
                    @ [Reg_read (t37_addr s) 1, Reg_read (t37_addr s + 1) 1])"
proof -
  have res: "mxt_debug_dump_page T s w = (Some Bad_page_mode, s, w3)"
    using assms by (auto simp: mxt_debug_dump_page_def read_diagnostic_def)
  obtain n where n: "0 < n" "bus w1 = bus (send_command T s w) @ replicate n (poll s)"
    using wait_command_bus [OF assms(1)] by blast
  have "bus w2 = bus w1 @ [Reg_read (t37_addr s) 1]"
    using assms(2) by (auto simp: mxt_read_register_def split: prod.splits)
  moreover have "bus w3 = bus w2 @ [Reg_read (t37_addr s + 1) 1]"
    using assms(4) by (auto simp: mxt_read_register_def split: prod.splits)
  ultimately have "bus w3 = bus w @ command_sent s # replicate n (poll s)
                    @ [Reg_read (t37_addr s) 1, Reg_read (t37_addr s + 1) 1]"
    using n(2) by (simp add: send_command_bus)
  then show ?thesis using res n(1) by blast
qed

theorem dump_page_mismatch_aborts_witness:
  "mxt_debug_dump_page (sim_transport 0x105 0x200) desync_dd (sim_sys desync_chip)
     = (Some Bad_page_mode, desync_dd, desync_sys 4)"
proof -
  let ?T = "sim_transport 0x105 0x200"
  have 1: "wait_command ?T desync_dd 0 (send_command ?T desync_dd (sim_sys desync_chip)) = (None, desync_sys 2)"
    by (simp add: wait_command.simps send_command_def mxt_write_register_def mxt_read_register_def
        sim_transport_def sim_read_def sim_write_def desync_dd_def fetch_dd_def zero_dd_def sim_sys_def
        desync_chip_def idle_chip_def PAGE_UP_def desync_sys_def)
  have 2: "mxt_read_register ?T (desync_sys 2) (t37_addr desync_dd) 1 = (0, (\<lambda>k. 0x10), desync_sys 3)"
    by (simp add: mxt_read_register_def
        sim_transport_def sim_read_def desync_dd_def fetch_dd_def zero_dd_def 
        desync_chip_def idle_chip_def desync_sys_def)
  have 3: "mxt_read_register ?T (desync_sys 3) (t37_addr desync_dd + 1) 1 = (0, (\<lambda>k. 6), desync_sys 4)"
    by (simp add: mxt_read_register_def
        sim_transport_def sim_read_def desync_dd_def fetch_dd_def zero_dd_def 
        desync_chip_def idle_chip_def desync_sys_def)
  have 4: "(\<lambda>k. 0x10 :: u8) 0 \<noteq> mode desync_dd \<or> uint ((\<lambda>k. 6 :: u8) 0) \<noteq> page desync_dd"
    by (simp add: desync_dd_def fetch_dd_def zero_dd_def)
  show ?thesis
    using dump_page_mismatch_aborts [OF 1 2 _ 3 _ 4] by simp
qed

text \<open>
  C6. Claim: every register read or write that fails inside the fetcher, the write of the
  command included, makes the fetcher fail. The return value of \<^verbatim>\<open>mxt_write_register\<close>
  is dropped at lines 123 and 127, while every read is checked: on a chip whose write
  fails with \<open>-1\<close> and that happens to be at the requested page, the fetcher returns 0.
\<close>

theorem dump_page_ignores_write_failure:
  "fst (mxt_write_register (sim_transport 0x105 0x200) (sim_sys failing_write_chip)
          [mode fetch_dd] (diag_cmd_addr fetch_dd)) = - 1 \<and>
   fst (mxt_debug_dump_page (sim_transport 0x105 0x200) fetch_dd (sim_sys failing_write_chip)) = None"
  by (simp add: mxt_debug_dump_page_def read_diagnostic_def wait_command.simps send_command_def
      mxt_write_register_def mxt_read_register_def sim_transport_def sim_read_def sim_write_def
      fetch_dd_def zero_dd_def sim_sys_def failing_write_chip_def idle_chip_def PAGE_UP_def)

section \<open>Properties of the frame serializer\<close>

lemma two_digits_eq:
  assumes "0 \<le> n" "n < 100"
  shows "two_digits n = [digit_char (nat (n div 10)), digit_char (nat (n mod 10))]"
proof (cases "n < 10")
  case True
  then have "dec_int n = [digit_char (nat n)]"
    using assms by (simp add: dec_int_def dec_nat.simps)
  moreover have "digit_char 0 = CHR ''0''" by (simp add: digit_char_def)
  ultimately show ?thesis using True assms by (simp add: two_digits_def)
next
  case False
  then have n: "\<not> nat n < 10" "nat n div 10 < 10" using assms by auto
  have "dec_nat (nat n) = dec_nat (nat n div 10) @ [digit_char (nat n mod 10)]"
    using n(1) by (subst dec_nat.simps) simp
  also have "dec_nat (nat n div 10) = [digit_char (nat n div 10)]"
    using n(2) by (subst dec_nat.simps) simp
  finally have "dec_nat (nat n) = [digit_char (nat n div 10), digit_char (nat n mod 10)]" by simp
  moreover have "nat n div 10 = nat (n div 10)" "nat n mod 10 = nat (n mod 10)"
    using assms by (simp_all add: nat_div_distrib nat_mod_distrib)
  ultimately show ?thesis using False assms by (simp add: two_digits_def dec_int_def)
qed

lemma strftime_T_ok: "tm_ok t \<Longrightarrow> strftime_T 20 t = Some (hh_mm_ss t)"
  by (simp add: strftime_T_def tm_ok_def two_digits_eq hh_mm_ss_def Let_def)

lemma hawkeye_column_eq:
  "hawkeye_column s x y = concat (map (\<lambda>y. cell_text s (x, y)) [y..y_size s - 1])"
proof (induction s x y rule: hawkeye_column.induct)
  case (1 s x y)
  show ?case
  proof (cases "y < y_size s")
    case True
    then have "[y..y_size s - 1] = y # [y + 1..y_size s - 1]" by (simp add: upto_rec1)
    then show ?thesis
      using "1.IH" True by (subst hawkeye_column.simps) (simp add: cell_text_def)
  next
    case False
    then show ?thesis by (subst hawkeye_column.simps) simp
  qed
qed

lemma hawkeye_columns_eq:
  "hawkeye_columns s x =
     concat (map (\<lambda>x. concat (map (\<lambda>y. cell_text s (x, y)) [0..y_size s - 1])) [x..x_size s - 1])"
proof (induction s x rule: hawkeye_columns.induct)
  case (1 s x)
  show ?case
  proof (cases "x < x_size s")
    case True
    then have "[x..x_size s - 1] = x # [x + 1..x_size s - 1]" by (simp add: upto_rec1)
    then show ?thesis
      using "1.IH" True by (subst hawkeye_columns.simps) (simp add: hawkeye_column_eq)
  next
    case False
    then show ?thesis by (subst hawkeye_columns.simps) simp
  qed
qed

lemma concat_map_cells:
  "concat (map f (concat (map (\<lambda>x. map (\<lambda>y. (x, y)) ys) xs)))
     = concat (map (\<lambda>x. concat (map (\<lambda>y. f (x, y)) ys)) xs)"
  by (induction xs) (simp_all add: comp_def)

lemma length_concat_cells:
  "length (concat (map (\<lambda>x. map (\<lambda>y. (x, y)) ys) xs)) = length xs * length ys"
  by (induction xs) simp_all

lemma hawkeye_columns_cells: "hawkeye_columns s 0 = concat (map (cell_text s) (matrix_cells s))"
  by (simp add: hawkeye_columns_eq matrix_cells_def concat_map_cells)

lemma length_matrix_cells: "length (matrix_cells s) = nat (x_size s) * nat (y_size s)"
  by (simp add: matrix_cells_def length_concat_cells)

lemma sint_frame: "(f :: u32) < 0x80000000 \<Longrightarrow> sint f = int (unat f)"
proof -
  assume a: "f < 0x80000000"
  then have "uint f < 2 ^ 31" by (simp add: word_less_def)
  moreover have "- (2 ^ 31) \<le> uint f"
  proof -
    have "- (2 ^ 31) \<le> (0::int)" by simp
    also have "0 \<le> uint f" by simp
    finally show ?thesis .
  qed
  ultimately have "signed_take_bit 31 (uint f) = uint f"
    by (rule signed_take_bit_int_eq_self [rotated])
  then show ?thesis by (simp add: sint_uint)
qed

text \<open>
  C9. One call of the serializer, made once for every completed frame (line 467), appends
  exactly one record to the open log: the time as \<open>HH:MM:SS\<close> and a comma, the frame
  number in decimal and a comma, then every cell of the matrix in column-major order as a
  signed 16-bit decimal, each followed by a comma, the last one too, then a newline. The
  record has \<open>x_size * y_size\<close> cells. The frame counter is printed with \<^verbatim>\<open>%d\<close>, which
  is the frame number itself for the first \<open>2^31 - 1\<close> frames.
\<close>

theorem hawkeye_output_record:
  assumes "tm_ok t" and "hawkeye_csv w = Some old"
  shows "mxt_hawkeye_output (Some t) s w =
           (0, w\<lparr>hawkeye_csv := Some (old @ hh_mm_ss t @ '','' @ dec_int (sint (frame s)) @ '',''
                    @ concat (map (cell_text s) (matrix_cells s)) @ [CHR 0x0A])\<rparr>)
         \<and> length (matrix_cells s) = nat (x_size s) * nat (y_size s)
         \<and> (frame s < 0x80000000 \<longrightarrow> sint (frame s) = int (unat (frame s)))"
proof -
  show ?thesis
    using assms sint_frame [of "frame s"]
    by (simp add: mxt_hawkeye_output_def strftime_T_ok fprintf_hawkeye_def hawkeye_columns_cells
        length_matrix_cells Let_def)
qed

theorem hawkeye_output_record_witness:
  "tm_ok noon_tm \<and> hawkeye_csv open_sys = Some [] \<and>
   mxt_hawkeye_output (Some noon_tm) frame_dd open_sys =
     (0, open_sys\<lparr>hawkeye_csv := Some (''12:34:56,1,0,-2,2,3,'' @ [CHR 0x0A])\<rparr>)"
proof -
  have ok: "tm_ok noon_tm" by (simp add: tm_ok_def noon_tm_def)
  have opn: "hawkeye_csv open_sys = Some []" by (simp add: open_sys_def sim_sys_def)
  have cells: "matrix_cells frame_dd = [(0, 0), (0, 1), (1, 0), (1, 1)]"
    by (simp add: matrix_cells_def frame_dd_def zero_dd_def upto_rec1)
  have cellstr: "concat (map (cell_text frame_dd) (matrix_cells frame_dd)) = ''0,-2,2,3,''"
    unfolding cells
    by (simp add: cell_text_def frame_dd_def zero_dd_def dec_int_def dec_nat.simps digit_char_def)
  have hms: "hh_mm_ss noon_tm = ''12:34:56''"
    by (simp add: hh_mm_ss_def noon_tm_def digit_char_def)
  have fr: "dec_int (sint (frame frame_dd)) = ''1''"
    by (simp add: frame_dd_def zero_dd_def dec_int_def dec_nat.simps digit_char_def)
  show ?thesis
    using hawkeye_output_record [OF ok opn, of frame_dd] ok opn
    unfolding cellstr hms fr by simp
qed

section \<open>Properties of the capture loop\<close>

lemma page_loop_unfold:
  "page_loop T pps s w pg =
     (if pg < pps
      then (let res = mxt_debug_dump_page T (s\<lparr>page := pps * stripe s + pg\<rparr>) w
            in if fst res = None
               then page_loop T pps (snd (mxt_debug_insert_data (fst (snd res)))) (snd (snd res)) (pg + 1)
               else res)
      else (None, s, w))"
  by (subst page_loop.simps) (auto simp: Let_def split: prod.splits option.splits)

lemma stripe_loop_unfold:
  "stripe_loop T ns pps s w =
     (if stripe s < ns
      then (let res = page_loop T pps
                        (s\<lparr>stripe_starty := stripe_width s * stripe s,
                           stripe_endy := stripe_width s * stripe s + stripe_width s - 1,
                           x_ptr := 0, y_ptr := stripe_width s * stripe s\<rparr>) w 0
            in if fst res = None
               then stripe_loop T ns pps ((fst (snd res))\<lparr>stripe := stripe (fst (snd res)) + 1\<rparr>)
                      (snd (snd res))
               else res)
      else (None, s, w))"
  by (subst stripe_loop.simps) (auto simp: Let_def split: prod.splits option.splits)

lemma frame_loop_unfold:
  "frame_loop T E frames ns pps s w =
     (if frame s \<le> frames
      then (let res = stripe_loop T ns pps (s\<lparr>stripe := 0\<rparr>) w
            in if fst res = None
               then frame_loop T E frames ns pps
                      ((fst (snd res))\<lparr>frame := frame (fst (snd res)) + 1\<rparr>)
                      (snd (mxt_hawkeye_output (localtime_at E (frame (fst (snd res))))
                             (fst (snd res)) (snd (snd res))))
               else Some res)
      else Some (None, s, w))"
  by (subst frame_loop.simps) (auto simp: Let_def split: prod.splits option.splits)

lemmas run_simps = mxt_debug_dump_def sim_env_def get_objects_addr_def select_geometry_def
  case_0x80_def case_0xA0_def case_0xA1_def case_0xA2_def case_default_def c_div_def
  frame_loop_unfold stripe_loop_unfold page_loop_unfold mxt_debug_dump_page_def send_command_def
  wait_command.simps read_diagnostic_def store_page_def mxt_read_register_def mxt_write_register_def
  mxt_debug_insert_data_def insert_loop.simps insert_sample_def sample16_def
  mxt_hawkeye_output_def strftime_T_def two_digits_def dec_int_def dec_nat.simps digit_char_def
  fprintf_hawkeye_def hawkeye_columns.simps hawkeye_column.simps
  mxt_hawkeye_generate_control_file_def control_columns.simps control_column.simps
  sim_transport_def sim_read_def sim_write_def sim_sys_def idle_chip_def zero_dd_def tiny_dd_def
  MXT_CP_T6_DIAGNOSTIC_OFFSET_def PAGE_UP_def DELTAS_MODE_def Let_def

lemma u32_2_le_1: "\<not> (2::u32) \<le> 1"
  by (simp add: word_le_nat_alt)

lemma u32_1_le_0: "\<not> (1::u32) \<le> 0"
  by simp

lemma u32_1_plus_1: "(1::u32) + 1 = 2" by simp

text \<open>
  The \<^verbatim>\<open>switch\<close> as a table. Family \<open>0x80\<close> gets the geometry of family \<open>0xA0\<close>, its own
  assignments being overwritten; any other family, and family \<open>0xA2\<close> with a variant other
  than 0, leaves the three locals as they were.
\<close>

lemma select_geometry_table:
  "select_geometry i x (a, b, s) =
     (if family_id i = 0x80 \<or> family_id i = 0xA0 then (3, 8, s\<lparr>x_size := 27\<rparr>)
      else if family_id i = 0xA1 then (1, if variant_id i = 0x03 then 9 else 12, s\<lparr>x_size := x\<rparr>)
      else if family_id i = 0xA2 \<and> variant_id i = 0x00 then (1, 30, s\<lparr>x_size := x\<rparr>)
      else (a, b, s))"
  by (simp add: select_geometry_def case_0x80_def case_0xA0_def case_0xA1_def case_0xA2_def
      case_default_def)

text \<open>
  C3. Claim: for a family or variant that the \<^verbatim>\<open>switch\<close> does not know, the geometry is
  refused with an error and no capture is attempted. The \<^verbatim>\<open>default\<close> branch only logs
  "Unrecognized family ID" and the function goes on with \<^verbatim>\<open>num_stripes\<close>,
  \<^verbatim>\<open>pages_per_stripe\<close> and \<^verbatim>\<open>mxt_dd.x_size\<close> never assigned. For family \<open>0x55\<close> the run
  returns 0 after it has sent the mode command and fetched as many pages as the stack
  happened to hold in \<^verbatim>\<open>pages_per_stripe\<close> (one page, or two); so it does for family
  \<open>0xA2\<close> with variant 1.
\<close>

theorem dump_proceeds_on_unknown_family:
  "map_option (\<lambda>(r, w). (r, commands (bus w)))
     (mxt_debug_dump (sim_transport 0x105 0x200) (sim_env 0x55 0 2 2 10 1) DELTAS_MODE
        (sim_sys idle_chip))
     = Some (0, [[0x10]]) \<and>
   map_option (\<lambda>(r, w). (r, commands (bus w)))
     (mxt_debug_dump (sim_transport 0x105 0x200)
        ((sim_env 0x55 0 2 2 10 1)\<lparr>stack_pages_per_stripe := 2\<rparr>) DELTAS_MODE
        (sim_sys idle_chip))
     = Some (0, [[0x10], [0x01]]) \<and>
   map_option (\<lambda>(r, w). (r, commands (bus w)))
     (mxt_debug_dump (sim_transport 0x105 0x200) (sim_env 0xA2 1 2 2 10 1) DELTAS_MODE
        (sim_sys idle_chip))
     = Some (0, [[0x10]])"
  by (simp add: run_simps u32_2_le_1)

text \<open>
  \<open>tiny_dd\<close> is the struct with which the run on \<open>sim_env 0xA1 3 1 1 6 1\<close> enters the page
  loop: the struct that enters the frame loop, with the assignments of lines 442--448 for
  stripe 0.
\<close>

lemma tiny_dd_stripe_start:
  "(capture_dd (sim_env 0xA1 3 1 1 6 1) 1
      (snd (snd (sim_geometry (sim_env 0xA1 3 1 1 6 1) DELTAS_MODE))) (\<lambda>k. 0) (\<lambda>k. 0))
     \<lparr>stripe := 0, stripe_starty := 0, stripe_endy := 0, x_ptr := 0, y_ptr := 0\<rparr> = tiny_dd"
  by (simp add: capture_dd_def sim_geometry_def sim_env_def get_objects_addr_def
      select_geometry_def case_0xA1_def c_div_def zero_dd_def tiny_dd_def
      MXT_CP_T6_DIAGNOSTIC_OFFSET_def DELTAS_MODE_def Let_def)

text \<open>
  C2. Claim: when the assembler reports an overrun, the capture stops at once and no
  further page is fetched. Line 463 calls \<^verbatim>\<open>mxt_debug_insert_data\<close> and drops its return
  value, while the return value of the fetcher is tested two lines above. On the 1 by 1
  matrix with pages of two samples, the first page is fetched and assembled, the second
  page is fetched and its assembly reports the overrun; the loop still fetches all nine
  pages, and the whole run returns 0 after nine commands, with the record of frame 1
  written to the log.
\<close>

theorem dump_continues_after_overrun:
  "(let first_page = page_loop (sim_transport 0x105 0x200) 1 tiny_dd (sim_sys idle_chip) 0;
        second_page = mxt_debug_dump_page (sim_transport 0x105 0x200)
                        ((fst (snd first_page))\<lparr>page := 1\<rparr>) (snd (snd first_page))
    in fst first_page = None \<and> fst second_page = None \<and>
       fst (mxt_debug_insert_data (fst (snd second_page))) = Some X_pointer_overrun) \<and>
   (let all_pages = page_loop (sim_transport 0x105 0x200) 9 tiny_dd (sim_sys idle_chip) 0
    in fst all_pages = None \<and>
       commands (bus (snd (snd all_pages))) = [[0x10], [1], [1], [1], [1], [1], [1], [1], [1]]) \<and>
   map_option (\<lambda>(r, w). (r, commands (bus w), hawkeye_csv w))
     (mxt_debug_dump (sim_transport 0x105 0x200) (sim_env 0xA1 3 1 1 6 1) DELTAS_MODE
        (sim_sys idle_chip))
     = Some (0, [[0x10], [1], [1], [1], [1], [1], [1], [1], [1]],
             Some (''12:34:56,1,256,'' @ [CHR 0x0A]))"
  by (simp add: run_simps u32_2_le_1)

lemma commands_append: "commands (xs @ ys) = commands xs @ commands ys"
  by (induction xs rule: commands.induct) simp_all

lemma commands_replicate_read: "commands (replicate n (Reg_read a k)) = []"
  by (induction n) simp_all

lemma wait_command_commands:
  "wait_command T s f w = (r, w1) \<Longrightarrow> commands (bus w1) = commands (bus w)"
  using wait_command_bus [of T s f w r w1]
  by (auto simp: commands_append poll_def commands_replicate_read)

lemma read_register_commands:
  "mxt_read_register T w a k = (ret, buf, w1) \<Longrightarrow> commands (bus w1) = commands (bus w)"
  by (auto simp: mxt_read_register_def commands_append split: prod.splits)

lemma read_diagnostic_commands:
  "read_diagnostic T s w = (r, s', w') \<Longrightarrow> commands (bus w') = commands (bus w)"
  by (auto simp: read_diagnostic_def Let_def split: prod.splits if_splits
           dest!: read_register_commands)

lemma read_diagnostic_fields:
  "read_diagnostic T s w = (r, s', w') \<Longrightarrow>
     mode s' = mode s \<and> stripe s' = stripe s \<and> frame s' = frame s"
  by (auto simp: read_diagnostic_def store_page_def Let_def split: prod.splits if_splits)

lemma dump_page_commands:
  assumes "mxt_debug_dump_page T s w = (r, s', w')"
  shows "commands (bus w') = commands (bus w) @ [page_command (mode s) (page s)]"
proof -
  obtain r1 w1 where wc: "wait_command T s 0 (send_command T s w) = (r1, w1)"
    by (cases "wait_command T s 0 (send_command T s w)") auto
  have c1: "commands (bus w1) = commands (bus w) @ [page_command (mode s) (page s)]"
    using wait_command_commands [OF wc]
    by (simp add: send_command_bus commands_append command_sent_def page_command_def)
  show ?thesis
  proof (cases r1)
    case (Some e)
    then show ?thesis using assms wc c1 by (simp add: mxt_debug_dump_page_def)
  next
    case None
    then have "read_diagnostic T s w1 = (r, s', w')"
      using assms wc by (simp add: mxt_debug_dump_page_def)
    then show ?thesis using c1 read_diagnostic_commands by metis
  qed
qed

lemma dump_page_fields:
  assumes "mxt_debug_dump_page T s w = (r, s', w')"
  shows "mode s' = mode s \<and> stripe s' = stripe s \<and> frame s' = frame s"
proof -
  obtain r1 w1 where wc: "wait_command T s 0 (send_command T s w) = (r1, w1)"
    by (cases "wait_command T s 0 (send_command T s w)") auto
  show ?thesis
  proof (cases r1)
    case (Some e)
    then show ?thesis using assms wc by (simp add: mxt_debug_dump_page_def)
  next
    case None
    then have "read_diagnostic T s w1 = (r, s', w')"
      using assms wc by (simp add: mxt_debug_dump_page_def)
    then show ?thesis by (rule read_diagnostic_fields)
  qed
qed

lemma insert_loop_fields:
  "mode (snd (insert_loop s i)) = mode s \<and> stripe (snd (insert_loop s i)) = stripe s
   \<and> frame (snd (insert_loop s i)) = frame s"
proof (induction s i rule: insert_loop.induct)
  case (1 s i)
  show ?case
    using "1.IH" by (subst (1 2 3) insert_loop.simps) (simp add: insert_sample_def Let_def)
qed

lemma insert_data_fields:
  "mode (snd (mxt_debug_insert_data s)) = mode s" "stripe (snd (mxt_debug_insert_data s)) = stripe s"
  "frame (snd (mxt_debug_insert_data s)) = frame s"
  by (simp_all add: mxt_debug_insert_data_def insert_loop_fields)

lemma page_loop_commands:
  "page_loop T pps s w pg = (r, s', w') \<Longrightarrow>
     mode s' = mode s \<and> stripe s' = stripe s \<and> frame s' = frame s \<and>
     (\<exists>sent rest. map (\<lambda>p. page_command (mode s) (pps * stripe s + p)) [pg..pps - 1] = sent @ rest
        \<and> commands (bus w') = commands (bus w) @ sent \<and> (r = None \<longrightarrow> rest = []))"
proof (induction T pps s w pg arbitrary: r s' w' rule: page_loop.induct)
  case (1 T pps s w pg)
  show ?case
  proof (cases "pg < pps")
    case False
    then have "r = None" "s' = s" "w' = w"
      using "1.prems" by (simp_all add: page_loop_unfold)
    moreover have "[pg..pps - 1] = []" using False by simp
    ultimately show ?thesis by simp
  next
    case True
    let ?s1 = "s\<lparr>page := pps * stripe s + pg\<rparr>"
    obtain r2 s2 w2 where dp: "mxt_debug_dump_page T ?s1 w = (r2, s2, w2)"
      by (cases "mxt_debug_dump_page T ?s1 w") auto
    have c2: "commands (bus w2) = commands (bus w) @ [page_command (mode s) (pps * stripe s + pg)]"
      using dump_page_commands [OF dp] by simp
    have f2: "mode s2 = mode s" "stripe s2 = stripe s" "frame s2 = frame s"
      using dump_page_fields [OF dp] by simp_all
    have up: "[pg..pps - 1] = pg # [pg + 1..pps - 1]" using True by (simp add: upto_rec1)
    show ?thesis
    proof (cases r2)
      case (Some e)
      then have "r = Some e" "s' = s2" "w' = w2"
        using "1.prems" True dp by (simp_all add: page_loop_unfold Let_def)
      then show ?thesis using c2 f2 up by simp
    next
      case None
      let ?s3 = "snd (mxt_debug_insert_data s2)"
      have rec: "page_loop T pps ?s3 w2 (pg + 1) = (r, s', w')"
        using "1.prems" True dp None by (simp add: page_loop_unfold Let_def)
      have f3: "mode ?s3 = mode s" "stripe ?s3 = stripe s" "frame ?s3 = frame s"
        using f2 by (simp_all add: insert_data_fields)
      have "mode s' = mode ?s3 \<and> stripe s' = stripe ?s3 \<and> frame s' = frame ?s3 \<and>
        (\<exists>sent rest. map (\<lambda>p. page_command (mode ?s3) (pps * stripe ?s3 + p)) [pg + 1..pps - 1] = sent @ rest
           \<and> commands (bus w') = commands (bus w2) @ sent \<and> (r = None \<longrightarrow> rest = []))"
        using "1.IH" [OF True refl dp [symmetric] _ refl rec] None by simp
      then obtain sent rest where
        IH: "mode s' = mode s" "stripe s' = stripe s" "frame s' = frame s"
          "map (\<lambda>p. page_command (mode s) (pps * stripe s + p)) [pg + 1..pps - 1] = sent @ rest"
          "commands (bus w') = commands (bus w2) @ sent" "r = None \<longrightarrow> rest = []"
        unfolding f3 by blast
      have "map (\<lambda>p. page_command (mode s) (pps * stripe s + p)) [pg..pps - 1]
              = (page_command (mode s) (pps * stripe s + pg) # sent) @ rest"
        unfolding up using IH(4) by simp
      moreover have "commands (bus w') = commands (bus w) @ (page_command (mode s) (pps * stripe s + pg) # sent)"
        using IH(5) c2 by simp
      ultimately show ?thesis using IH(1,2,3,6) by blast
    qed
  qed
qed

lemma stripe_loop_commands:
  "stripe_loop T ns pps s w = (r, s', w') \<Longrightarrow>
     mode s' = mode s \<and> frame s' = frame s \<and>
     (\<exists>sent rest. concat (map (stripe_commands (mode s) pps) [stripe s..ns - 1]) = sent @ rest
        \<and> commands (bus w') = commands (bus w) @ sent \<and> (r = None \<longrightarrow> rest = []))"
proof (induction "nat (ns - stripe s)" arbitrary: s w r s' w' rule: less_induct)
  case less
  show ?case
  proof (cases "stripe s < ns")
    case False
    then have "r = None" "s' = s" "w' = w"
      using less.prems by (simp_all add: stripe_loop_unfold)
    moreover have "[stripe s..ns - 1] = []" using False by simp
    ultimately show ?thesis by simp
  next
    case True
    let ?s4 = "s\<lparr>stripe_starty := stripe_width s * stripe s,
                  stripe_endy := stripe_width s * stripe s + stripe_width s - 1,
                  x_ptr := 0, y_ptr := stripe_width s * stripe s\<rparr>"
    obtain r5 s5 w5 where pl: "page_loop T pps ?s4 w 0 = (r5, s5, w5)"
      by (cases "page_loop T pps ?s4 w 0") auto
    from page_loop_commands [OF pl] obtain sent5 rest5 where
      p5: "mode s5 = mode s" "stripe s5 = stripe s" "frame s5 = frame s"
        "stripe_commands (mode s) pps (stripe s) = sent5 @ rest5"
        "commands (bus w5) = commands (bus w) @ sent5" "r5 = None \<longrightarrow> rest5 = []"
      by (auto simp: stripe_commands_def)
    have up: "[stripe s..ns - 1] = stripe s # [stripe s + 1..ns - 1]"
      using True by (simp add: upto_rec1)
    show ?thesis
    proof (cases r5)
      case (Some e)
      then have "r = Some e" "s' = s5" "w' = w5"
        using less.prems True pl by (simp_all add: stripe_loop_unfold Let_def)
      moreover have "concat (map (stripe_commands (mode s) pps) [stripe s..ns - 1])
           = sent5 @ (rest5 @ concat (map (stripe_commands (mode s) pps) [stripe s + 1..ns - 1]))"
        unfolding up using p5(4) by simp
      ultimately show ?thesis using p5(1,3,5) by blast
    next
      case None
      let ?s6 = "s5\<lparr>stripe := stripe s5 + 1\<rparr>"
      have rec: "stripe_loop T ns pps ?s6 w5 = (r, s', w')"
        using less.prems True pl None by (simp add: stripe_loop_unfold Let_def)
      have full5: "stripe_commands (mode s) pps (stripe s) = sent5" using p5(4,6) None by simp
      have "mode s' = mode ?s6 \<and> frame s' = frame ?s6 \<and>
        (\<exists>sent rest. concat (map (stripe_commands (mode ?s6) pps) [stripe ?s6..ns - 1]) = sent @ rest
           \<and> commands (bus w') = commands (bus w5) @ sent \<and> (r = None \<longrightarrow> rest = []))"
        using less.hyps [OF _ rec] True p5(2) by simp
      then obtain sent rest where
        IH: "mode s' = mode s" "frame s' = frame s"
          "concat (map (stripe_commands (mode s) pps) [stripe s + 1..ns - 1]) = sent @ rest"
          "commands (bus w') = commands (bus w5) @ sent" "r = None \<longrightarrow> rest = []"
        using p5(1,2,3) by auto
      have "concat (map (stripe_commands (mode s) pps) [stripe s..ns - 1]) = (sent5 @ sent) @ rest"
        unfolding up using IH(3) full5 by simp
      moreover have "commands (bus w') = commands (bus w) @ (sent5 @ sent)"
        using IH(4) p5(5) by simp
      ultimately show ?thesis using IH(1,2,5) by blast
    qed
  qed
qed

lemma hawkeye_output_bus: "bus (snd (mxt_hawkeye_output tmp s w)) = bus w"
  by (simp add: mxt_hawkeye_output_def fprintf_hawkeye_def Let_def split: option.splits)

lemma session_commands_nil: "session_commands md ns pps 0 c []"
  by (simp add: session_commands_def)

lemma session_commands_partial:
  "frame_commands md ns pps = sent @ rest \<Longrightarrow> session_commands md ns pps 0 False sent"
  by (auto simp: session_commands_def)

lemma session_commands_frame:
  "session_commands md ns pps n c cmds \<Longrightarrow>
   session_commands md ns pps (Suc n) c (frame_commands md ns pps @ cmds)"
  by (auto simp: session_commands_def)

lemma unat_frames_succ:
  fixes frames :: u32
  assumes "frames < 0xFFFFFFFF"
  shows "unat (frames + 1) = Suc (unat frames)"
proof -
  have "unat frames < 4294967295" using assms by (simp add: word_less_nat_alt)
  then have "unat frames + unat (1::u32) < 2 ^ LENGTH(32)" by simp
  then have "unat (frames + 1) = unat frames + unat (1::u32)" by (simp only: unat_add_lem)
  then show ?thesis by simp
qed

lemma frames_left_exit:
  fixes f frames :: u32
  assumes "\<not> f \<le> frames" "frames < 0xFFFFFFFF" "f \<le> frames + 1"
  shows "unat (frames + 1 - f) = 0"
proof -
  have "unat f = unat (frames + 1)"
    using assms(1,3) unat_frames_succ [OF assms(2)] by (simp add: word_le_nat_alt)
  then have "f = frames + 1" by (simp add: word_unat_eq_iff)
  then show ?thesis by simp
qed

lemma frames_left_step:
  fixes f frames :: u32
  assumes "f \<le> frames" "frames < 0xFFFFFFFF"
  shows "f + 1 \<le> frames + 1" "unat (frames + 1 - f) = Suc (unat (frames + 1 - (f + 1)))"
proof -
  have lt: "f < 0xFFFFFFFF" using assms by simp
  have uf: "unat (f + 1) = Suc (unat f)" using lt by (rule unat_frames_succ)
  have ufr: "unat (frames + 1) = Suc (unat frames)" using assms(2) by (rule unat_frames_succ)
  have le: "unat f \<le> unat frames" using assms(1) by (simp add: word_le_nat_alt)
  show 1: "f + 1 \<le> frames + 1" using uf ufr le by (simp add: word_le_nat_alt)
  have 2: "f \<le> frames + 1" using ufr le by (simp add: word_le_nat_alt)
  have "unat (frames + 1 - f) = unat (frames + 1) - unat f" using 2 by (rule unat_sub)
  moreover have "unat (frames + 1 - (f + 1)) = unat (frames + 1) - unat (f + 1)" using 1 by (rule unat_sub)
  ultimately show "unat (frames + 1 - f) = Suc (unat (frames + 1 - (f + 1)))"
    using uf ufr le by simp
qed

lemma frame_loop_commands:
  assumes "frame_loop T E frames ns pps s w = Some res"
  shows "frame_loop_post frames ns pps s w res"
proof (rule frame_loop.raw_induct
    [where P = "\<lambda>T E frames ns pps s w res. frame_loop_post frames ns pps s w res", OF _ assms])
  fix fl :: "'d transport \<Rightarrow> dump_env \<Rightarrow> u32 \<Rightarrow> int \<Rightarrow> int \<Rightarrow> mxt_debug_data \<Rightarrow> 'd sys
     \<Rightarrow> (dd_error option \<times> mxt_debug_data \<times> 'd sys) option"
  fix T E frames ns pps s w res
  assume IH0: "\<And>T E frames ns pps s w res. fl T E frames ns pps s w = Some res \<Longrightarrow>
                 frame_loop_post frames ns pps s w res"
  assume prems: "(if frame s \<le> frames
      then case stripe_loop T ns pps (s\<lparr>stripe := 0\<rparr>) w of
           (None, s1, w1) \<Rightarrow>
             (case mxt_hawkeye_output (localtime_at E (frame s1)) s1 w1 of
                (r, w2) \<Rightarrow> fl T E frames ns pps (s1\<lparr>frame := frame s1 + 1\<rparr>) w2)
           | (Some e, s1, w1) \<Rightarrow> Some (Some e, s1, w1)
      else Some (None, s, w)) = Some res"
  show "frame_loop_post frames ns pps s w res"
  proof (cases "frame s \<le> frames")
    case False
    then have res: "res = (None, s, w)" using prems by simp
    have n0: "fst res = None \<and> frames < 0xFFFFFFFF \<and> frame s \<le> frames + 1
             \<longrightarrow> 0 = unat (frames + 1 - frame s)"
      using frames_left_exit [OF False] by simp
    have c0: "commands (bus (snd (snd res))) = commands (bus w) @ []" unfolding res by simp
    have s0: "session_commands (mode s) ns pps 0 (fst res = None) []"
      by (rule session_commands_nil)
    show ?thesis unfolding frame_loop_post_def using c0 s0 n0
      by (intro exI [of _ 0] exI [of _ "[]"]) simp
  next
    case True
    obtain r1 s1 w1 where sl: "stripe_loop T ns pps (s\<lparr>stripe := 0\<rparr>) w = (r1, s1, w1)"
      by (cases "stripe_loop T ns pps (s\<lparr>stripe := 0\<rparr>) w") auto
    from stripe_loop_commands [OF sl] obtain sent rest where
      s1: "mode s1 = mode s" "frame s1 = frame s" "frame_commands (mode s) ns pps = sent @ rest"
        "commands (bus w1) = commands (bus w) @ sent" "r1 = None \<longrightarrow> rest = []"
      by (auto simp: frame_commands_def)
    show ?thesis
    proof (cases r1)
      case (Some e)
      then have res: "res = (Some e, s1, w1)" using prems True sl by simp
      have "commands (bus (snd (snd res))) = commands (bus w) @ sent"
        unfolding res using s1(4) by simp
      moreover have "session_commands (mode s) ns pps 0 (fst res = None) sent"
        unfolding res using session_commands_partial [OF s1(3)] by simp
      moreover have "\<not> fst res = None" unfolding res by simp
      ultimately show ?thesis unfolding frame_loop_post_def
        by (intro exI [of _ 0] exI [of _ sent]) auto
    next
      case None
      let ?s2 = "s1\<lparr>frame := frame s1 + 1\<rparr>"
      let ?w2 = "snd (mxt_hawkeye_output (localtime_at E (frame s1)) s1 w1)"
      have fr: "frame s1 = frame s" by (rule s1(2))
      have rec: "fl T E frames ns pps ?s2 ?w2 = Some res"
        using prems True sl None by (simp add: case_prod_beta)
      from IH0 [OF rec, unfolded frame_loop_post_def] obtain n cmds where
        IH: "commands (bus (snd (snd res))) = commands (bus ?w2) @ cmds"
          "session_commands (mode s) ns pps n (fst res = None) cmds"
          "fst res = None \<and> frames < 0xFFFFFFFF \<and> frame s + 1 \<le> frames + 1
             \<longrightarrow> n = unat (frames + 1 - (frame s + 1))"
        using s1(1) fr by auto
      have full: "frame_commands (mode s) ns pps = sent" using s1(3,5) None by simp
      have "commands (bus (snd (snd res))) = commands (bus w) @ (frame_commands (mode s) ns pps @ cmds)"
        using IH(1) s1(4) full by (simp add: hawkeye_output_bus)
      moreover have "session_commands (mode s) ns pps (Suc n) (fst res = None)
                       (frame_commands (mode s) ns pps @ cmds)"
        using IH(2) by (rule session_commands_frame)
      moreover have "fst res = None \<and> frames < 0xFFFFFFFF \<and> frame s \<le> frames + 1
             \<longrightarrow> Suc n = unat (frames + 1 - frame s)"
      proof (intro impI)
        assume a: "fst res = None \<and> frames < 0xFFFFFFFF \<and> frame s \<le> frames + 1"
        then have "n = unat (frames + 1 - (frame s + 1))"
          using IH(3) frames_left_step(1) [OF True] by blast
        then show "Suc n = unat (frames + 1 - frame s)"
          using frames_left_step(2) [OF True] a by simp
      qed
      ultimately show ?thesis unfolding frame_loop_post_def
        by (intro exI [of _ "Suc n"] exI [of _ "frame_commands (mode s) ns pps @ cmds"]) simp
    qed
  qed
qed

lemma frame_loop_returns:
  assumes "frames < 0xFFFFFFFF" "frame s \<le> frames + 1"
  shows "\<exists>res. frame_loop T E frames ns pps s w = Some res"
  using assms(2)
proof (induction "unat (frames + 1 - frame s)" arbitrary: s w rule: less_induct)
  case less
  show ?case
  proof (cases "frame s \<le> frames")
    case False
    then show ?thesis by (subst frame_loop_unfold) simp
  next
    case True
    let ?res = "stripe_loop T ns pps (s\<lparr>stripe := 0\<rparr>) w"
    show ?thesis
    proof (cases "fst ?res = None")
      case False
      then have "frame_loop T E frames ns pps s w = Some ?res"
        using True by (subst frame_loop_unfold) (auto simp: Let_def)
      then show ?thesis by blast
    next
      case None: True
      let ?s1 = "fst (snd ?res)"
      let ?s2 = "?s1\<lparr>frame := frame ?s1 + 1\<rparr>"
      let ?w2 = "snd (mxt_hawkeye_output (localtime_at E (frame ?s1)) ?s1 (snd (snd ?res)))"
      have "stripe_loop T ns pps (s\<lparr>stripe := 0\<rparr>) w = (fst ?res, ?s1, snd (snd ?res))" by simp
      from stripe_loop_commands [OF this] have fr: "frame ?s1 = frame s" by simp
      have "\<exists>res. frame_loop T E frames ns pps ?s2 ?w2 = Some res"
        using less.hyps [of ?s2 ?w2] frames_left_step [OF \<open>frame s \<le> frames\<close> assms(1)] fr
        by simp
      then show ?thesis
        using \<open>frame s \<le> frames\<close> None by (subst frame_loop_unfold) (simp add: Let_def)
    qed
  qed
qed

lemma get_objects_addr_mode: "mode (snd (get_objects_addr E s)) = mode s"
  by (simp add: get_objects_addr_def Let_def)

lemma select_geometry_fields:
  "select_geometry i x (a, b, s) = (ns, pps, s2) \<Longrightarrow> mode s2 = mode s \<and> y_size s2 = y_size s"
  by (auto simp: select_geometry_def case_0x80_def case_0xA0_def case_0xA1_def case_0xA2_def
      case_default_def split: if_splits)

lemma mxt_debug_dump_unfold:
  assumes "select_geometry (info_block_id E) (matrix_x_size (info_block_id E))
             (stack_num_stripes E, stack_pages_per_stripe E,
              snd (get_objects_addr E ((stack_mxt_dd E)\<lparr>mode := of_int m\<rparr>))) = (ns, pps, s2)"
  shows "mxt_debug_dump T E m w =
     (if fst (get_objects_addr E ((stack_mxt_dd E)\<lparr>mode := of_int m\<rparr>)) \<noteq> 0 then Some (- 1, w)
      else if ns = 0 then None
      else case malloc_page_buf E of
        None \<Rightarrow> Some (- 1, w)
      | Some pb \<Rightarrow>
         (case malloc_data_buf E of
            None \<Rightarrow> Some (- 1, w)
          | Some db \<Rightarrow>
             if \<not> fopen_hawkeye E then Some (- 1, w)
             else (case frame_loop T E (typed_frames E) ns pps (capture_dd E ns s2 pb db)
                          (w\<lparr>hawkeye_csv := Some []\<rparr>) of
                     None \<Rightarrow> None
                   | Some (Some e, s7, w7) \<Rightarrow> Some (- 1, w7)
                   | Some (None, s7, w7) \<Rightarrow>
                       Some (0, mxt_hawkeye_generate_control_file (fopen_control E) s7 w7))))"
proof -
  obtain ret s1 where g: "get_objects_addr E ((stack_mxt_dd E)\<lparr>mode := of_int m\<rparr>) = (ret, s1)"
    by (cases "get_objects_addr E ((stack_mxt_dd E)\<lparr>mode := of_int m\<rparr>)") auto
  have sg: "select_geometry (info_block_id E) (matrix_x_size (info_block_id E))
             (stack_num_stripes E, stack_pages_per_stripe E, s1) = (ns, pps, s2)"
    using assms g by simp
  show ?thesis
    unfolding mxt_debug_dump_def Let_def g capture_dd_def
    by (simp add: sg split: option.splits)
qed

lemma capture_dd_fields:
  "frame (capture_dd E ns s2 pb db) = 1" "mode (capture_dd E ns s2 pb db) = mode s2"
  "x_size (capture_dd E ns s2 pb db) = x_size s2"
  "y_size (capture_dd E ns s2 pb db) = matrix_y_size (info_block_id E)"
  by (simp_all add: capture_dd_def)

lemma one_le_frames_succ:
  fixes frames :: u32
  assumes "frames < 0xFFFFFFFF"
  shows "1 \<le> frames + 1"
  using unat_frames_succ [OF assms] by (simp add: word_le_nat_alt)

lemma control_file_bus: "bus (mxt_hawkeye_generate_control_file opened s w) = bus w"
  by (simp add: mxt_hawkeye_generate_control_file_def)

text \<open>
  C5, amended. Across a whole capture session the mode value is written for the first page
  of every frame (page index \<open>pages_per_stripe * stripe + page = 0\<close>, which the loops reset
  with each frame), and the page-up command for every other page of every frame and stripe.
  With \<open>ns\<close> stripes and \<open>pps\<close> pages per stripe as the \<^verbatim>\<open>switch\<close> chose them: a session
  asked for fewer than \<open>2^32 - 1\<close> frames returns (unless \<open>ns = 0\<close>); whenever a session
  returns, the commands it has written are those of \<open>n\<close> whole frames followed by a first
  part of the commands of one more frame; if it returns 0 that part is empty, and \<open>n\<close> is
  the number of frames asked for.
\<close>

theorem dump_mode_command_once_per_frame:
  assumes "select_geometry (info_block_id E) (matrix_x_size (info_block_id E))
             (stack_num_stripes E, stack_pages_per_stripe E,
              snd (get_objects_addr E ((stack_mxt_dd E)\<lparr>mode := of_int m\<rparr>))) = (ns, pps, s2)"
  shows "(typed_frames E < 0xFFFFFFFF \<and> ns \<noteq> 0 \<longrightarrow> mxt_debug_dump T E m w \<noteq> None) \<and>
         (\<forall>ret w'. mxt_debug_dump T E m w = Some (ret, w') \<longrightarrow>
            (\<exists>n cmds. commands (bus w') = commands (bus w) @ cmds
               \<and> session_commands (of_int m) ns pps n (ret = 0) cmds
               \<and> (ret = 0 \<and> typed_frames E < 0xFFFFFFFF \<longrightarrow> n = unat (typed_frames E))))"
proof (intro conjI impI allI)
  assume a: "typed_frames E < 0xFFFFFFFF \<and> ns \<noteq> 0"
  have ret: "\<exists>r s7 w7. frame_loop T E (typed_frames E) ns pps (capture_dd E ns s2 pb db)
                 (w\<lparr>hawkeye_csv := Some []\<rparr>) = Some (r, s7, w7)" for pb db
    using a one_le_frames_succ [of "typed_frames E"]
      frame_loop_returns [of "typed_frames E" "capture_dd E ns s2 pb db" T E ns pps
        "w\<lparr>hawkeye_csv := Some []\<rparr>"]
    by (simp add: capture_dd_fields)
  show "mxt_debug_dump T E m w \<noteq> None"
  proof (cases "malloc_page_buf E")
    case None
    then show ?thesis using a unfolding mxt_debug_dump_unfold [OF assms] by simp
  next
    case pb: (Some pb)
    show ?thesis
    proof (cases "malloc_data_buf E")
      case None
      then show ?thesis using a pb unfolding mxt_debug_dump_unfold [OF assms] by simp
    next
      case db: (Some db)
      obtain r s7 w7 where "frame_loop T E (typed_frames E) ns pps (capture_dd E ns s2 pb db)
                 (w\<lparr>hawkeye_csv := Some []\<rparr>) = Some (r, s7, w7)"
        using ret by blast
      then show ?thesis
        using a pb db unfolding mxt_debug_dump_unfold [OF assms]
        by (simp split: option.splits)
    qed
  qed
next
  fix ret w'
  assume run: "mxt_debug_dump T E m w = Some (ret, w')"
  have md: "mode s2 = of_int m"
    using select_geometry_fields [OF assms] by (simp add: get_objects_addr_mode)
  let ?P = "\<lambda>(ret::int) w'. \<exists>n cmds. commands (bus w') = commands (bus w) @ cmds
               \<and> session_commands (of_int m) ns pps n (ret = 0) cmds
               \<and> (ret = 0 \<and> typed_frames E < 0xFFFFFFFF \<longrightarrow> n = unat (typed_frames E))"
  have early: "?P (- 1) w"
    using session_commands_nil [of "of_int m" ns pps False]
    by (intro exI [of _ 0] exI [of _ "[]"]) simp
  have loop: "?P (if r = None then 0 else - 1)
                (if r = None then mxt_hawkeye_generate_control_file (fopen_control E) s7 w7 else w7)"
    if fl: "frame_loop T E (typed_frames E) ns pps (capture_dd E ns s2 pb db)
              (w\<lparr>hawkeye_csv := Some []\<rparr>) = Some (r, s7, w7)" for pb db r s7 w7
  proof -
    from frame_loop_commands [OF fl, unfolded frame_loop_post_def] obtain n cmds where
      c: "commands (bus w7) = commands (bus w) @ cmds"
        "session_commands (of_int m) ns pps n (r = None) cmds"
        "r = None \<and> typed_frames E < 0xFFFFFFFF \<and> 1 \<le> typed_frames E + 1
           \<longrightarrow> n = unat (typed_frames E + 1 - 1)"
      by (auto simp: capture_dd_fields md)
    have n: "r = None \<and> typed_frames E < 0xFFFFFFFF \<longrightarrow> n = unat (typed_frames E)"
      using c(3) one_le_frames_succ [of "typed_frames E"] by simp
    show ?thesis
    proof (cases r)
      case None
      then show ?thesis using c(1,2) n
        by (intro exI [of _ n] exI [of _ cmds]) (simp add: control_file_bus)
    next
      case (Some e)
      then show ?thesis using c(1,2)
        by (intro exI [of _ n] exI [of _ cmds]) simp
    qed
  qed
  note unf = mxt_debug_dump_unfold [OF assms, of T w]
  show "?P ret w'"
  proof (cases "fst (get_objects_addr E ((stack_mxt_dd E)\<lparr>mode := of_int m\<rparr>)) \<noteq> 0
                \<or> malloc_page_buf E = None \<or> malloc_data_buf E = None \<or> \<not> fopen_hawkeye E")
    case True
    then have "ret = - 1 \<and> w' = w"
      using run unfolding unf by (auto split: if_splits option.splits)
    then show ?thesis using early by simp
  next
    case False
    then obtain pb db where ok: "fst (get_objects_addr E ((stack_mxt_dd E)\<lparr>mode := of_int m\<rparr>)) = 0"
        "malloc_page_buf E = Some pb" "malloc_data_buf E = Some db" "fopen_hawkeye E"
      by auto
    have nz: "ns \<noteq> 0" using run ok unfolding unf by (auto split: if_splits)
    let ?fl = "frame_loop T E (typed_frames E) ns pps (capture_dd E ns s2 pb db)
                 (w\<lparr>hawkeye_csv := Some []\<rparr>)"
    have "?fl \<noteq> None"
    proof
      assume "?fl = None"
      then show False using run ok nz unfolding unf by simp
    qed
    then obtain r s7 w7 where fl: "?fl = Some (r, s7, w7)" by (cases ?fl) auto
    have "ret = (if r = None then 0 else - 1) \<and>
          w' = (if r = None then mxt_hawkeye_generate_control_file (fopen_control E) s7 w7 else w7)"
      using run ok nz fl unfolding unf by (cases r) auto
    then show ?thesis using loop [OF fl] by simp
  qed
qed

lemma control_column_eq:
  "control_column s x y = concat (map (\<lambda>y. control_line (x, y)) [y..y_size s - 1])"
proof (induction s x y rule: control_column.induct)
  case (1 s x y)
  show ?case
  proof (cases "y < y_size s")
    case True
    then have "[y..y_size s - 1] = y # [y + 1..y_size s - 1]" by (simp add: upto_rec1)
    then show ?thesis
      using "1.IH" True by (subst control_column.simps) (simp add: control_line_def)
  next
    case False
    then show ?thesis by (subst control_column.simps) simp
  qed
qed

lemma control_columns_eq:
  "control_columns s x =
     concat (map (\<lambda>x. concat (map (\<lambda>y. control_line (x, y)) [0..y_size s - 1])) [x..x_size s - 1])"
proof (induction s x rule: control_columns.induct)
  case (1 s x)
  show ?case
  proof (cases "x < x_size s")
    case True
    then have "[x..x_size s - 1] = x # [x + 1..x_size s - 1]" by (simp add: upto_rec1)
    then show ?thesis
      using "1.IH" True by (subst control_columns.simps) (simp add: control_column_eq)
  next
    case False
    then show ?thesis by (subst control_columns.simps) simp
  qed
qed

lemma control_columns_cells: "control_columns s 0 = concat (map control_line (matrix_cells s))"
  by (simp add: control_columns_eq matrix_cells_def concat_map_cells)

text \<open>
  C10. If 0 frames are asked for and the set-up succeeds (the three objects are found, both
  buffers are allocated, both files can be opened, and the \<^verbatim>\<open>switch\<close> left a number of
  stripes other than 0), the run makes no register transfer at all, leaves the log created
  and empty, writes the whole layout descriptor (the header and one line for every cell of
  the matrix, column by column) and returns 0.
\<close>

theorem dump_zero_frames:
  assumes "typed_frames E = 0"
    and "t6_object_address E \<noteq> OBJECT_NOT_FOUND E"
    and "t37_object_address E \<noteq> OBJECT_NOT_FOUND E"
    and "t37_object_size E \<noteq> OBJECT_NOT_FOUND E"
    and "select_geometry (info_block_id E) (matrix_x_size (info_block_id E))
             (stack_num_stripes E, stack_pages_per_stripe E,
              snd (get_objects_addr E ((stack_mxt_dd E)\<lparr>mode := of_int m\<rparr>))) = (ns, pps, s2)"
    and "ns \<noteq> 0"
    and "malloc_page_buf E = Some pb" and "malloc_data_buf E = Some db"
    and "fopen_hawkeye E" and "fopen_control E"
  shows "mxt_debug_dump T E m w =
           Some (0, w\<lparr>hawkeye_csv := Some [],
                      control_txt := Some (''uint8,1,1,TIN'' @ [CHR 0x0A]
                        @ concat (map control_line
                            (matrix_cells (s2\<lparr>y_size := matrix_y_size (info_block_id E)\<rparr>))))\<rparr>)"
proof -
  have g: "fst (get_objects_addr E ((stack_mxt_dd E)\<lparr>mode := of_int m\<rparr>)) = 0"
    using assms(2,3,4) by (simp add: get_objects_addr_def Let_def)
  have fl: "frame_loop T E (typed_frames E) ns pps (capture_dd E ns s2 pb db)
              (w\<lparr>hawkeye_csv := Some []\<rparr>)
            = Some (None, capture_dd E ns s2 pb db, w\<lparr>hawkeye_csv := Some []\<rparr>)"
    using assms(1) by (subst frame_loop_unfold) (simp add: capture_dd_fields)
  have cells: "matrix_cells (capture_dd E ns s2 pb db)
                 = matrix_cells (s2\<lparr>y_size := matrix_y_size (info_block_id E)\<rparr>)"
    by (simp add: matrix_cells_def capture_dd_fields)
  show ?thesis
    unfolding mxt_debug_dump_unfold [OF assms(5)]
    using g assms(6-10) fl
    by (simp add: mxt_hawkeye_generate_control_file_def control_columns_cells cells)
qed

lemma sim_geometry_0xA1_3:
  "select_geometry (info_block_id (sim_env 0xA1 3 mx my sz n))
     (matrix_x_size (info_block_id (sim_env 0xA1 3 mx my sz n)))
     (stack_num_stripes (sim_env 0xA1 3 mx my sz n), stack_pages_per_stripe (sim_env 0xA1 3 mx my sz n),
      snd (get_objects_addr (sim_env 0xA1 3 mx my sz n)
             ((stack_mxt_dd (sim_env 0xA1 3 mx my sz n))\<lparr>mode := of_int m\<rparr>)))
   = (1, 9, snd (snd (sim_geometry (sim_env 0xA1 3 mx my sz n) m)))"
  by (simp add: sim_geometry_def sim_env_def select_geometry_def case_0xA1_def)

lemma two_frame_run:
  "map_option (\<lambda>(r, w). (r, commands (bus w)))
     (mxt_debug_dump (sim_transport 0x105 0x200) (sim_env 0xA1 3 1 1 6 2) DELTAS_MODE
        (sim_sys idle_chip))
     = Some (0, [[0x10], [1], [1], [1], [1], [1], [1], [1], [1],
                 [0x10], [1], [1], [1], [1], [1], [1], [1], [1]])"
  by (simp add: run_simps)

theorem dump_mode_command_once_per_frame_witness:
  "mxt_debug_dump (sim_transport 0x105 0x200) (sim_env 0xA1 3 1 1 6 2) DELTAS_MODE (sim_sys idle_chip)
     \<noteq> None \<and>
   session_commands 0x10 1 9 2 True
     (commands (bus (snd (the (mxt_debug_dump (sim_transport 0x105 0x200)
        (sim_env 0xA1 3 1 1 6 2) DELTAS_MODE (sim_sys idle_chip))))))"
proof -
  let ?T = "sim_transport 0x105 0x200" and ?E = "sim_env 0xA1 3 1 1 6 2"
  note inst = dump_mode_command_once_per_frame
    [OF sim_geometry_0xA1_3 [of 1 1 6 2 DELTAS_MODE], of ?T "sim_sys idle_chip"]
  have fr: "typed_frames ?E < 0xFFFFFFFF \<and> (1::int) \<noteq> 0" by (simp add: sim_env_def)
  then have nn: "mxt_debug_dump ?T ?E DELTAS_MODE (sim_sys idle_chip) \<noteq> None"
    using inst by blast
  then obtain ret w' where run: "mxt_debug_dump ?T ?E DELTAS_MODE (sim_sys idle_chip) = Some (ret, w')"
    by (cases "mxt_debug_dump ?T ?E DELTAS_MODE (sim_sys idle_chip)") auto
  have ret: "ret = 0" using two_frame_run run by simp
  from inst run obtain n cmds where
    c: "commands (bus w') = commands (bus (sim_sys idle_chip)) @ cmds"
      "session_commands (of_int DELTAS_MODE) 1 9 n (ret = 0) cmds"
      "ret = 0 \<and> typed_frames ?E < 0xFFFFFFFF \<longrightarrow> n = unat (typed_frames ?E)"
    by blast
  have "n = 2" using c(3) ret by (simp add: sim_env_def)
  moreover have "commands (bus w') = cmds" using c(1) by (simp add: sim_sys_def)
  ultimately have "session_commands 0x10 1 9 2 True (commands (bus w'))"
    using c(2) ret by (simp add: DELTAS_MODE_def)
  then show ?thesis using nn run by simp
qed

text \<open>
  C5, as stated (the mode value is written only for the first page of the session), fails:
  in a session of two frames of nine pages, the tenth command written (list index 9), for
  the first page of the second frame, is the mode value again.
\<close>

theorem mode_written_every_frame_counterexample:
  "map_option (\<lambda>(r, w). (r, commands (bus w)))
     (mxt_debug_dump (sim_transport 0x105 0x200) (sim_env 0xA1 3 1 1 6 2) DELTAS_MODE
        (sim_sys idle_chip))
     = Some (0, [[0x10], [1], [1], [1], [1], [1], [1], [1], [1],
                 [0x10], [1], [1], [1], [1], [1], [1], [1], [1]]) \<and>
   map_option (\<lambda>(r, w). commands (bus w) ! 9)
     (mxt_debug_dump (sim_transport 0x105 0x200) (sim_env 0xA1 3 1 1 6 2) DELTAS_MODE
        (sim_sys idle_chip))
     = Some [of_int DELTAS_MODE]"
proof -
  obtain ret w' where run: "mxt_debug_dump (sim_transport 0x105 0x200) (sim_env 0xA1 3 1 1 6 2)
      DELTAS_MODE (sim_sys idle_chip) = Some (ret, w')"
    using two_frame_run by (cases "mxt_debug_dump (sim_transport 0x105 0x200)
      (sim_env 0xA1 3 1 1 6 2) DELTAS_MODE (sim_sys idle_chip)") auto
  show ?thesis using two_frame_run unfolding run by (simp add: DELTAS_MODE_def)
qed

theorem dump_zero_frames_witness:
  "mxt_debug_dump (sim_transport 0x105 0x200) (sim_env 0xA1 3 2 2 10 0) DELTAS_MODE (sim_sys idle_chip)
     = Some (0, (sim_sys idle_chip)\<lparr>hawkeye_csv := Some [],
          control_txt := Some (''uint8,1,1,TIN'' @ [CHR 0x0A]
             @ ''int16_lsb_msb,1,1,X0Y0_Delta16'' @ [CHR 0x0A]
             @ ''int16_lsb_msb,2,1,X0Y1_Delta16'' @ [CHR 0x0A]
             @ ''int16_lsb_msb,1,2,X1Y0_Delta16'' @ [CHR 0x0A]
             @ ''int16_lsb_msb,2,2,X1Y1_Delta16'' @ [CHR 0x0A])\<rparr>)"
proof -
  let ?E = "sim_env 0xA1 3 2 2 10 0"
  let ?s2 = "snd (snd (sim_geometry ?E DELTAS_MODE))"
  have x: "x_size ?s2 = 2"
    by (simp add: sim_geometry_def sim_env_def select_geometry_def case_0xA1_def)
  have cells: "matrix_cells (?s2\<lparr>y_size := matrix_y_size (info_block_id ?E)\<rparr>)
                 = [(0, 0), (0, 1), (1, 0), (1, 1)]"
    using x by (simp add: matrix_cells_def sim_env_def upto_rec1)
  have lines: "concat (map control_line [(0, 0), (0, 1), (1, 0), (1, 1)])
     = ''int16_lsb_msb,1,1,X0Y0_Delta16'' @ [CHR 0x0A]
             @ ''int16_lsb_msb,2,1,X0Y1_Delta16'' @ [CHR 0x0A]
             @ ''int16_lsb_msb,1,2,X1Y0_Delta16'' @ [CHR 0x0A]
             @ ''int16_lsb_msb,2,2,X1Y1_Delta16'' @ [CHR 0x0A]"
    by (simp add: control_line_def dec_int_def dec_nat.simps digit_char_def)
  have "mxt_debug_dump (sim_transport 0x105 0x200) ?E DELTAS_MODE (sim_sys idle_chip)
     = Some (0, (sim_sys idle_chip)\<lparr>hawkeye_csv := Some [],
          control_txt := Some (''uint8,1,1,TIN'' @ [CHR 0x0A]
             @ concat (map control_line
                  (matrix_cells (?s2\<lparr>y_size := matrix_y_size (info_block_id ?E)\<rparr>))))\<rparr>)"
    by (rule dump_zero_frames [OF _ _ _ _ sim_geometry_0xA1_3, where pb = "\<lambda>k. 0" and db = "\<lambda>k. 0"])
       (simp_all add: sim_env_def)
  then show ?thesis unfolding cells lines .
qed

end
